theory Spec2Isabelle
  imports Main "HOL-Library.Sublist"
begin

section \<open>Data model\<close>

text \<open>
  The query engine of \<^verbatim>\<open>SQLAir.cpp\<close> works on a \<^verbatim>\<open>CSV\<close> object: a header of column
  names and a sequence of rows, each row a vector of cell strings. The class itself
  (\<^verbatim>\<open>CSV.h\<close>) is not part of the sources at hand; only its use is. The mutex and the
  condition variable a table owns carry no data; what the code does with them is
  recorded as a trace of synchronisation events further down.
\<close>

record CSV =
  columnNames :: "string list"
  rowData :: "string list list"

text \<open>
  Exceptions. \<^verbatim>\<open>Exp\<close> is the exception class of the program, thrown with a message;
  \<^verbatim>\<open>out_of_range\<close> is what \<^verbatim>\<open>std::vector::at\<close> and \<^verbatim>\<open>std::unordered_map::at\<close> throw. The
  remaining constructors are the error kinds the specification names for the helpers
  whose code is absent (\<^verbatim>\<open>CSV::getColumnIndex\<close>, \<^verbatim>\<open>SQLAirBase::matches\<close>, \<^verbatim>\<open>CSV::load\<close>);
  no statement of \<^verbatim>\<open>SQLAir.cpp\<close> raises \<open>NoTableLoaded\<close>.
\<close>

datatype error =
    Exp string
  | out_of_range
  | InvalidColumn
  | InvalidQuery
  | LoadFailed
  | NoTableLoaded

text \<open>
  How a call ends: it returns, it leaves by an exception, it stays suspended in
  \<^verbatim>\<open>condition_variable::wait\<close> for ever, or it has run into undefined behaviour
  (\<^verbatim>\<open>colNames[0]\<close> on an empty vector).
\<close>

datatype status = Returned | Threw error | Blocked | Undefined

text \<open>What a thread does to the mutex and condition variable of a table, in order.\<close>

datatype sync_event = LockCsv | WaitCsv | WakeCsv | UnlockCsv | NotifyAll

text \<open>
  \<^verbatim>\<open>SQLAirBase::matches(cell, cond, value)\<close> is a parameter of the model: a function
  that answers or throws.
\<close>

type_synonym matcher = "string \<Rightarrow> string \<Rightarrow> string \<Rightarrow> error + bool"

definition tab :: string where
  "tab = [CHR 0x09]"

definition endl :: string where
  "endl = [CHR 0x0A]"

subsection \<open>Library functions the code calls\<close>

text \<open>\<^verbatim>\<open>std::vector::at\<close>: a checked read. An \<^verbatim>\<open>int\<close> index that is negative becomes a huge
  \<^verbatim>\<open>size_t\<close> and is out of range as well.\<close>

definition at :: "'a list \<Rightarrow> int \<Rightarrow> error + 'a" where
  "at xs i = (if 0 \<le> i \<and> i < int (length xs) then Inr (xs ! nat i) else Inl out_of_range)"

text \<open>\<^verbatim>\<open>std::to_string(int)\<close>: the decimal digits, with a minus sign for a negative number.\<close>

fun digits :: "nat \<Rightarrow> string" where
  "digits n = (if n < 10 then [char_of (48 + n)] else digits (n div 10) @ [char_of (48 + n mod 10)])"

declare digits.simps [simp del]

definition to_string :: "int \<Rightarrow> string" where
  "to_string i = (if i < 0 then CHR ''-'' # digits (nat (- i)) else digits (nat i))"

text \<open>\<^verbatim>\<open>s.find(pat) != std::string::npos\<close>: \<open>pat\<close> occurs somewhere in \<open>s\<close>.\<close>

fun contains :: "string \<Rightarrow> string \<Rightarrow> bool" where
  "contains pat [] = (pat = [])"
| "contains pat (x # xs) = (prefix pat (x # xs) \<or> contains pat xs)"

subsection \<open>The absent table class, as far as the queries use it\<close>

definition getColumnNames :: "CSV \<Rightarrow> string list" where
  "getColumnNames csv = columnNames csv"

primrec find_col :: "string \<Rightarrow> string list \<Rightarrow> nat option" where
  "find_col c [] = None"
| "find_col c (x # xs) = (if x = c then Some 0 else map_option Suc (find_col c xs))"

text \<open>
  Modelled from the spec: \<^verbatim>\<open>CSV::getColumnIndex\<close> is declared in the absent \<^verbatim>\<open>CSV.h\<close>.
  The specification says that a column name not found in the header signals
  InvalidColumn; a name that is found gives its position in the header.
\<close>

definition getColumnIndex :: "CSV \<Rightarrow> string \<Rightarrow> error + int" where
  "getColumnIndex csv colName =
     (case find_col colName (columnNames csv) of
        None \<Rightarrow> Inl InvalidColumn
      | Some k \<Rightarrow> Inr (int k))"

text \<open>
  Modelled from the spec: \<^verbatim>\<open>operator<<\<close> for a vector of strings is declared in an absent
  header. The specification describes the header line of a select as tab-separated.
\<close>

fun showStrVec :: "string list \<Rightarrow> string" where
  "showStrVec [] = []"
| "showStrVec [x] = x"
| "showStrVec (x # y # ys) = x @ tab @ showStrVec (y # ys)"

section \<open>Query executor\<close>

text \<open>
  The test of the where-clause, as both row loops compute it: no where-clause
  (\<^verbatim>\<open>whereColIdx == -1\<close>) matches without calling the matcher; otherwise the cell is read
  with \<^verbatim>\<open>row.at(whereColIdx)\<close> and handed to \<^verbatim>\<open>matches\<close>.
\<close>

definition isMatch :: "matcher \<Rightarrow> string list \<Rightarrow> int \<Rightarrow> string \<Rightarrow> string \<Rightarrow> error + bool" where
  "isMatch matches row whereColIdx cond val =
     (if whereColIdx = -1 then Inr True
      else (case at row whereColIdx of
              Inl e \<Rightarrow> Inl e
            | Inr cell \<Rightarrow> matches cell cond val))"

text \<open>
  The inner loop of \<^verbatim>\<open>selectRowProcess\<close>: for each requested column the cell is looked
  up by name and appended to \<open>rowText\<close> behind the current delimiter.
\<close>

fun selectCells :: "CSV \<Rightarrow> string list \<Rightarrow> string list \<Rightarrow> string \<Rightarrow> string \<Rightarrow> error + string" where
  "selectCells csv row [] delim rowText = Inr rowText"
| "selectCells csv row (colName # colNames) delim rowText =
     (case getColumnIndex csv colName of
        Inl e \<Rightarrow> Inl e
      | Inr k \<Rightarrow>
          (case at row k of
             Inl e \<Rightarrow> Inl e
           | Inr cell \<Rightarrow> selectCells csv row colNames tab (rowText @ delim @ cell)))"

text \<open>
  The loop over the rows of \<^verbatim>\<open>selectRowProcess\<close>. \<open>rowText\<close> and \<open>rowCount\<close> are the two
  reference parameters; an exception leaves the loop at once. The row counter is a C++
  \<^verbatim>\<open>int\<close>: the model counts in \<open>int\<close> and so describes tables of fewer than \<open>2^31\<close> rows.
\<close>

fun selectRows ::
  "matcher \<Rightarrow> CSV \<Rightarrow> string list list \<Rightarrow> string list \<Rightarrow> int \<Rightarrow> string \<Rightarrow> string \<Rightarrow>
     string \<times> int \<Rightarrow> error + string \<times> int" where
  "selectRows matches csv [] colNames whereColIdx cond val (rowText, rowCount) =
     Inr (rowText, rowCount)"
| "selectRows matches csv (row # rest) colNames whereColIdx cond val (rowText, rowCount) =
     (case isMatch matches row whereColIdx cond val of
        Inl e \<Rightarrow> Inl e
      | Inr False \<Rightarrow>
          selectRows matches csv rest colNames whereColIdx cond val (rowText, rowCount)
      | Inr True \<Rightarrow>
          (case selectCells csv row colNames [] rowText of
             Inl e \<Rightarrow> Inl e
           | Inr rowText' \<Rightarrow>
               selectRows matches csv rest colNames whereColIdx cond val
                 (rowText' @ endl, rowCount + 1)))"

definition selectRowProcess ::
  "matcher \<Rightarrow> CSV \<Rightarrow> string list \<Rightarrow> int \<Rightarrow> string \<Rightarrow> string \<Rightarrow>
     string \<times> int \<Rightarrow> error + string \<times> int" where
  "selectRowProcess matches csv colNames whereColIdx cond val st =
     selectRows matches csv (rowData csv) colNames whereColIdx cond val st"

text \<open>
  The waiting loop of \<^verbatim>\<open>selectQuery\<close> (\<^verbatim>\<open>while (rowCount == 0 && mustWait)\<close>), as a
  function of what the thread meets. Other threads are not part of this function; what
  they do is given by \<open>wakeups\<close>, with one entry for each return of
  \<^verbatim>\<open>csvCondVar.wait\<close> (a spurious wakeup included): the rows as the scan that follows
  reads them, each row once and under its own lock. The list holds the wakeups that
  reach the thread and no others: a \<^verbatim>\<open>notify_all\<close> sent while the thread is not inside
  the wait wakes nobody and has no entry. When no wakeup is left the thread stays
  suspended in the wait. One round of the loop locks \<^verbatim>\<open>csvMutex\<close>, waits (the wait
  gives the mutex up and takes it again on wakeup), scans the table again, and unlocks
  when the \<^verbatim>\<open>unique_lock\<close> goes out of scope, also when the scan throws. How the
  wakeups come about, and which ones are lost, is the subject of the interleaving of
  two threads further down.
\<close>

fun selectWait ::
  "matcher \<Rightarrow> string list \<Rightarrow> int \<Rightarrow> string \<Rightarrow> string \<Rightarrow> CSV list \<Rightarrow> bool \<Rightarrow>
     string \<times> int \<Rightarrow> (string \<times> int) \<times> sync_event list \<times> status" where
  "selectWait matches colNames whereColIdx cond val [] mustWait (rowText, rowCount) =
     (if rowCount = 0 \<and> mustWait then ((rowText, rowCount), [LockCsv, WaitCsv], Blocked)
      else ((rowText, rowCount), [], Returned))"
| "selectWait matches colNames whereColIdx cond val (csv # later) mustWait (rowText, rowCount) =
     (if rowCount = 0 \<and> mustWait then
        (case selectRowProcess matches csv colNames whereColIdx cond val (rowText, rowCount) of
           Inl e \<Rightarrow> ((rowText, rowCount), [LockCsv, WaitCsv, WakeCsv, UnlockCsv], Threw e)
         | Inr (rowText', rowCount') \<Rightarrow>
             (case selectWait matches colNames whereColIdx cond val later
                     (if rowCount' \<noteq> 0 then False else mustWait) (rowText', rowCount') of
                (st, evs, s) \<Rightarrow> (st, [LockCsv, WaitCsv, WakeCsv, UnlockCsv] @ evs, s)))
      else ((rowText, rowCount), [], Returned))"

text \<open>
  \<^verbatim>\<open>selectQuery\<close>. The stream \<open>os\<close> is the text written so far; the result is the
  stream afterwards, the synchronisation events of the call and how the call ended.
  Nothing is written before the last two statements, so a call that throws or stays
  blocked leaves \<open>os\<close> as it was.
\<close>

definition selectQuery ::
  "matcher \<Rightarrow> CSV \<Rightarrow> bool \<Rightarrow> string list \<Rightarrow> int \<Rightarrow> string \<Rightarrow> string \<Rightarrow> string \<Rightarrow> CSV list \<Rightarrow>
     string \<times> sync_event list \<times> status" where
  "selectQuery matches csv mustWait colNames whereColIdx cond val os wakeups =
     (case colNames of
        [] \<Rightarrow> (os, [], Undefined)
      | first # _ \<Rightarrow>
          (let colNames = (if first = ''*'' then getColumnNames csv else colNames) in
           case selectRowProcess matches csv colNames whereColIdx cond val ([], 0) of
             Inl e \<Rightarrow> (os, [], Threw e)
           | Inr st \<Rightarrow>
               (case selectWait matches colNames whereColIdx cond val wakeups mustWait st of
                  ((rowText, rowCount), evs, s) \<Rightarrow>
                    if s = Returned then
                      (os @ (if rowCount \<noteq> 0 then showStrVec colNames @ endl else [])
                          @ rowText @ to_string rowCount @ '' row(s) selected.'' @ endl,
                       evs, Returned)
                    else (os, evs, s))))"

text \<open>
  The inner loop of \<^verbatim>\<open>updateRowProcess\<close>,
  \<^verbatim>\<open>row.at(csv.getColumnIndex(colNames[i])) = values.at(i)\<close> for \<open>i\<close> from \<open>0\<close>: the two
  vectors are walked in step, and a column without a value is \<^verbatim>\<open>values.at(i)\<close> out of
  range. The right-hand side of the assignment is evaluated first. The row comes back
  with the cells written so far, also when the loop throws.
\<close>

fun updateCells ::
  "CSV \<Rightarrow> string list \<Rightarrow> string list \<Rightarrow> string list \<Rightarrow> string list \<times> error option" where
  "updateCells csv [] vals row = (row, None)"
| "updateCells csv (colName # colNames) [] row = (row, Some out_of_range)"
| "updateCells csv (colName # colNames) (v # vals) row =
     (case getColumnIndex csv colName of
        Inl e \<Rightarrow> (row, Some e)
      | Inr k \<Rightarrow>
          (if 0 \<le> k \<and> k < int (length row)
           then updateCells csv colNames vals (row[nat k := v])
           else (row, Some out_of_range)))"

text \<open>
  The loop over the rows of \<^verbatim>\<open>updateRowProcess\<close>: the rows as they are afterwards, the
  counter, and the exception that ended the loop, if any. Rows behind the one that
  threw are not visited.
\<close>

fun updateRows ::
  "matcher \<Rightarrow> CSV \<Rightarrow> string list \<Rightarrow> string list \<Rightarrow> int \<Rightarrow> string \<Rightarrow> string \<Rightarrow>
     string list list \<Rightarrow> int \<Rightarrow> (string list list \<times> int) \<times> error option" where
  "updateRows matches csv colNames vals whereColIdx cond val [] rowCount = (([], rowCount), None)"
| "updateRows matches csv colNames vals whereColIdx cond val (row # rest) rowCount =
     (case isMatch matches row whereColIdx cond val of
        Inl e \<Rightarrow> ((row # rest, rowCount), Some e)
      | Inr False \<Rightarrow>
          (case updateRows matches csv colNames vals whereColIdx cond val rest rowCount of
             ((rest', rowCount'), r) \<Rightarrow> ((row # rest', rowCount'), r))
      | Inr True \<Rightarrow>
          (case updateCells csv colNames vals row of
             (row', Some e) \<Rightarrow> ((row' # rest, rowCount), Some e)
           | (row', None) \<Rightarrow>
               (case updateRows matches csv colNames vals whereColIdx cond val rest (rowCount + 1) of
                  ((rest', rowCount'), r) \<Rightarrow> ((row' # rest', rowCount'), r))))"

definition updateRowProcess ::
  "matcher \<Rightarrow> CSV \<Rightarrow> string list \<Rightarrow> string list \<Rightarrow> int \<Rightarrow> string \<Rightarrow> string \<Rightarrow> int \<Rightarrow>
     (CSV \<times> int) \<times> error option" where
  "updateRowProcess matches csv colNames vals whereColIdx cond val rowCount =
     (case updateRows matches csv colNames vals whereColIdx cond val (rowData csv) rowCount of
        ((rows', rowCount'), r) \<Rightarrow> ((csv\<lparr>rowData := rows'\<rparr>, rowCount'), r))"

text \<open>The waiting loop of \<^verbatim>\<open>updateQuery\<close>, with the wakeups as for the select.\<close>

fun updateWait ::
  "matcher \<Rightarrow> string list \<Rightarrow> string list \<Rightarrow> int \<Rightarrow> string \<Rightarrow> string \<Rightarrow> CSV list \<Rightarrow> bool \<Rightarrow>
     CSV \<times> int \<Rightarrow> (CSV \<times> int) \<times> sync_event list \<times> status" where
  "updateWait matches colNames vals whereColIdx cond val [] mustWait (csv, rowCount) =
     (if rowCount = 0 \<and> mustWait then ((csv, rowCount), [LockCsv, WaitCsv], Blocked)
      else ((csv, rowCount), [], Returned))"
| "updateWait matches colNames vals whereColIdx cond val (woken # later) mustWait (csv, rowCount) =
     (if rowCount = 0 \<and> mustWait then
        (case updateRowProcess matches woken colNames vals whereColIdx cond val rowCount of
           (st, Some e) \<Rightarrow> (st, [LockCsv, WaitCsv, WakeCsv, UnlockCsv], Threw e)
         | ((csv', rowCount'), None) \<Rightarrow>
             (case updateWait matches colNames vals whereColIdx cond val later
                     (if rowCount' \<noteq> 0 then False else mustWait) (csv', rowCount') of
                (st, evs, s) \<Rightarrow> (st, [LockCsv, WaitCsv, WakeCsv, UnlockCsv] @ evs, s)))
      else ((csv, rowCount), [], Returned))"

text \<open>
  \<^verbatim>\<open>updateQuery\<close>: the table afterwards, the stream afterwards, the synchronisation
  events and how the call ended.
\<close>

definition updateQuery ::
  "matcher \<Rightarrow> CSV \<Rightarrow> bool \<Rightarrow> string list \<Rightarrow> string list \<Rightarrow> int \<Rightarrow> string \<Rightarrow> string \<Rightarrow> string \<Rightarrow>
     CSV list \<Rightarrow> CSV \<times> string \<times> sync_event list \<times> status" where
  "updateQuery matches csv mustWait colNames vals whereColIdx cond val os wakeups =
     (case updateRowProcess matches csv colNames vals whereColIdx cond val 0 of
        ((csv1, rowCount1), Some e) \<Rightarrow> (csv1, os, [], Threw e)
      | ((csv1, rowCount1), None) \<Rightarrow>
          (case updateWait matches colNames vals whereColIdx cond val wakeups mustWait
                  (csv1, rowCount1) of
             ((csv2, rowCount), evs, s) \<Rightarrow>
               if s = Returned then
                 (csv2, os @ to_string rowCount @ '' row(s) updated.'' @ endl,
                  evs @ (if rowCount \<noteq> 0 then [NotifyAll] else []), Returned)
               else (csv2, os, evs, s)))"

text \<open>\<^verbatim>\<open>insertQuery\<close> and \<^verbatim>\<open>deleteQuery\<close> throw at once; table and stream stay as they are.\<close>

definition insertQuery ::
  "CSV \<Rightarrow> bool \<Rightarrow> string list \<Rightarrow> string list \<Rightarrow> string \<Rightarrow> CSV \<times> string \<times> status" where
  "insertQuery csv mustWait colNames vals os =
     (csv, os, Threw (Exp ''insert is not yet implemented.''))"

definition deleteQuery ::
  "CSV \<Rightarrow> bool \<Rightarrow> int \<Rightarrow> string \<Rightarrow> string \<Rightarrow> string \<Rightarrow> CSV \<times> string \<times> status" where
  "deleteQuery csv mustWait whereColIdx cond val os =
     (csv, os, Threw (Exp ''delete is not yet implemented.''))"

subsection \<open>A select and an update in two threads\<close>

text \<open>
  \<^verbatim>\<open>selectQuery\<close> once more, now in the steps between which another thread can run.
  The points of the selecting thread: before the first statement; at the test of the
  \<^verbatim>\<open>while\<close> loop, with the result of the last scan; inside \<^verbatim>\<open>csvCondVar.wait\<close>; woken,
  before the scan of the loop body; and left, by return or by exception. The thread
  keeps its local variables: the column names after line 183, \<open>rowText\<close>, \<open>rowCount\<close>,
  \<open>mustWait\<close> and the stream.
\<close>

datatype selPoint = AtEntry | AtLoop | InWait | Notified | AtExit status

record selThread =
  point :: selPoint
  selCols :: "string list"
  selText :: string
  selCount :: int
  selWait :: bool
  selOut :: string

record race =
  shared :: CSV
  reader :: selThread

definition selectEntry :: "bool \<Rightarrow> string \<Rightarrow> selThread" where
  "selectEntry mustWait os =
     \<lparr>point = AtEntry, selCols = [], selText = [], selCount = 0, selWait = mustWait,
      selOut = os\<rparr>"

text \<open>
  One step of the selecting thread on the shared table; \<open>None\<close> when the thread cannot
  move: it is suspended in the wait, or it has left. From the entry: lines 183 to 193,
  the wildcard and the first scan. At the loop test: either into the wait (lines 196
  and 197), or past the loop to the two output statements. Woken: the scan of line 198
  and the update of \<open>mustWait\<close>, back to the loop test.
\<close>

definition selectStep ::
  "matcher \<Rightarrow> string list \<Rightarrow> int \<Rightarrow> string \<Rightarrow> string \<Rightarrow> race \<Rightarrow> race option" where
  "selectStep matches colNames whereColIdx cond val rc =
     (let t = reader rc; csv = shared rc in
      case point t of
        AtEntry \<Rightarrow>
          (case colNames of
             [] \<Rightarrow> Some (rc\<lparr>reader := t\<lparr>point := AtExit Undefined\<rparr>\<rparr>)
           | first # _ \<Rightarrow>
               (let cols = (if first = ''*'' then getColumnNames csv else colNames) in
                case selectRowProcess matches csv cols whereColIdx cond val ([], 0) of
                  Inl e \<Rightarrow> Some (rc\<lparr>reader := t\<lparr>point := AtExit (Threw e), selCols := cols\<rparr>\<rparr>)
                | Inr (rowText, rowCount) \<Rightarrow>
                    Some (rc\<lparr>reader := t\<lparr>point := AtLoop, selCols := cols,
                                          selText := rowText, selCount := rowCount\<rparr>\<rparr>)))
      | AtLoop \<Rightarrow>
          (if selCount t = 0 \<and> selWait t then Some (rc\<lparr>reader := t\<lparr>point := InWait\<rparr>\<rparr>)
           else Some (rc\<lparr>reader := t\<lparr>point := AtExit Returned,
                   selOut := selOut t
                     @ (if selCount t \<noteq> 0 then showStrVec (selCols t) @ endl else [])
                     @ selText t @ to_string (selCount t) @ '' row(s) selected.'' @ endl\<rparr>\<rparr>))
      | InWait \<Rightarrow> None
      | Notified \<Rightarrow>
          (case selectRowProcess matches csv (selCols t) whereColIdx cond val
                  (selText t, selCount t) of
             Inl e \<Rightarrow> Some (rc\<lparr>reader := t\<lparr>point := AtExit (Threw e)\<rparr>\<rparr>)
           | Inr (rowText, rowCount) \<Rightarrow>
               Some (rc\<lparr>reader := t\<lparr>point := AtLoop, selText := rowText, selCount := rowCount,
                       selWait := (if rowCount \<noteq> 0 then False else selWait t)\<rparr>\<rparr>))
      | AtExit s \<Rightarrow> None)"

text \<open>
  A whole \<^verbatim>\<open>updateQuery\<close> without wait by another thread, on the shared table. Its
  \<^verbatim>\<open>notify_all\<close> wakes the selecting thread if that thread is inside the wait at that
  moment; a condition variable does not keep a notification for a thread that waits
  later.
\<close>

definition updateStep ::
  "matcher \<Rightarrow> string list \<Rightarrow> string list \<Rightarrow> int \<Rightarrow> string \<Rightarrow> string \<Rightarrow> race \<Rightarrow> race" where
  "updateStep matches colNames vals whereColIdx cond val rc =
     (case updateQuery matches (shared rc) False colNames vals whereColIdx cond val [] [] of
        (csv', os', evs, s) \<Rightarrow>
          rc\<lparr>shared := csv',
             reader := (if NotifyAll \<in> set evs \<and> point (reader rc) = InWait
                        then (reader rc)\<lparr>point := Notified\<rparr> else reader rc)\<rparr>)"

text \<open>A schedule: which thread moves next. The arguments of the select are fixed for
  the run, an update brings its own.\<close>

datatype raceAction = Select | Update "string list" "string list" int string string

fun interleave ::
  "matcher \<Rightarrow> string list \<Rightarrow> int \<Rightarrow> string \<Rightarrow> string \<Rightarrow> raceAction list \<Rightarrow> race \<Rightarrow> race option"
  where
  "interleave matches colNames whereColIdx cond val [] rc = Some rc"
| "interleave matches colNames whereColIdx cond val (Select # sched) rc =
     (case selectStep matches colNames whereColIdx cond val rc of
        None \<Rightarrow> None
      | Some rc' \<Rightarrow> interleave matches colNames whereColIdx cond val sched rc')"
| "interleave matches colNames whereColIdx cond val (Update ucols uvals uwhere ucond uval # sched) rc =
     interleave matches colNames whereColIdx cond val sched
       (updateStep matches ucols uvals uwhere ucond uval rc)"

section \<open>Table registry\<close>

text \<open>
  The registry of \<^verbatim>\<open>SQLAir\<close>: the most recently used identifier and the tables in memory,
  keyed by identifier. A reference to a table in memory is its key.
\<close>

record registry =
  recentCSV :: string
  inMemoryCSV :: "string \<rightharpoonup> CSV"

text \<open>
  The world outside the process. A stream is the list of its lines. \<open>files\<close> gives the
  lines of a file, or nothing for a path that cannot be opened; \<open>servers host port\<close> is
  nothing when the connection fails and otherwise answers a request path with the lines
  of the response.
\<close>

record world =
  files :: "string \<rightharpoonup> string list"
  servers :: "string \<Rightarrow> string \<Rightarrow> (string \<Rightarrow> string list) option"

text \<open>
  Functions of absent classes (\<^verbatim>\<open>Helper\<close>, \<^verbatim>\<open>CSV\<close>), taken as parameters: the URL
  splitter, \<^verbatim>\<open>trim\<close>, what \<^verbatim>\<open>CSV::load\<close> makes of the lines of a readable stream
  (nothing for malformed data) and the lines \<^verbatim>\<open>CSV::save\<close> writes.
\<close>

record helpers =
  breakDownURL :: "string \<Rightarrow> string \<times> string \<times> string"
  trim :: "string \<Rightarrow> string"
  parseCSV :: "string list \<Rightarrow> CSV option"
  printCSV :: "CSV \<Rightarrow> string list"

text \<open>
  Modelled from the spec: \<^verbatim>\<open>CSV::load\<close> is defined in the absent \<^verbatim>\<open>CSV.cpp\<close>. The
  specification lists a file that is not found and malformed CSV as load failures,
  signalled as LoadFailed.
\<close>

definition load :: "helpers \<Rightarrow> string list option \<Rightarrow> error + CSV" where
  "load h stream =
     (case stream of
        None \<Rightarrow> Inl LoadFailed
      | Some ls \<Rightarrow> (case parseCSV h ls of None \<Rightarrow> Inl LoadFailed | Some csv \<Rightarrow> Inr csv))"

text \<open>\<^verbatim>\<open>std::getline\<close> on a stream of lines: at the end of the stream the string is empty.\<close>

fun getline :: "string list \<Rightarrow> string \<times> string list" where
  "getline [] = ([], [])"
| "getline (l # ls) = (l, ls)"

text \<open>The loop that skips the response headers: it reads up to and including the first
  line that is empty or a lone carriage return.\<close>

fun skipHeaders :: "string list \<Rightarrow> string list" where
  "skipHeaders [] = []"
| "skipHeaders (hdr # ls) = (if hdr \<noteq> [] \<and> hdr \<noteq> [CHR 0x0D] then skipHeaders ls else ls)"

definition loadFromURL :: "helpers \<Rightarrow> world \<Rightarrow> string \<Rightarrow> string \<Rightarrow> string \<Rightarrow> error + CSV" where
  "loadFromURL h w hostName port path =
     (case servers w hostName port of
        None \<Rightarrow> Inl (Exp (''Unable to connect to '' @ hostName @ '' at port '' @ port))
      | Some respond \<Rightarrow>
          (case getline (respond path) of
             (status, rest) \<Rightarrow>
               if \<not> contains ''200'' status then
                 Inl (Exp (''Error ('' @ trim h status @ '') getting '' @ path @
                           '' from '' @ hostName @ '' at port '' @ port))
               else load h (Some (skipHeaders rest))))"

text \<open>The part of \<^verbatim>\<open>loadAndGet\<close> that reads the table, from a server or from a file.\<close>

definition loadCSV :: "helpers \<Rightarrow> world \<Rightarrow> string \<Rightarrow> error + CSV" where
  "loadCSV h w fileOrURL =
     (if prefix ''http://'' fileOrURL then
        (case breakDownURL h fileOrURL of
           (host, port, path) \<Rightarrow> loadFromURL h w host port path)
      else load h (files w fileOrURL))"

text \<open>
  \<^verbatim>\<open>loadAndGet\<close>: the registry afterwards, and the exception or the reference to the
  table. The most recently used identifier is assigned before the lookup.
\<close>

definition loadAndGet :: "helpers \<Rightarrow> world \<Rightarrow> registry \<Rightarrow> string \<Rightarrow> registry \<times> (error + string)" where
  "loadAndGet h w reg fileOrURL =
     (let fileOrURL = (if fileOrURL = [] then recentCSV reg else fileOrURL);
          reg = reg\<lparr>recentCSV := fileOrURL\<rparr>
      in if inMemoryCSV reg fileOrURL \<noteq> None then (reg, Inr fileOrURL)
         else (case loadCSV h w fileOrURL of
                 Inl e \<Rightarrow> (reg, Inl e)
               | Inr csv \<Rightarrow>
                   (reg\<lparr>inMemoryCSV := (inMemoryCSV reg)(fileOrURL \<mapsto> csv)\<rparr>, Inr fileOrURL)))"

text \<open>
  \<^verbatim>\<open>saveQuery\<close>: the registry (which the function only reads), the files and the stream
  afterwards, and how the call ended. \<open>canWrite\<close> tells which paths can be opened for
  writing. Opening the output file empties it, before the table is looked up; the
  stream is never tested, so for a path that cannot be opened nothing is written and
  the call reports the save all the same.
\<close>

definition saveQuery ::
  "helpers \<Rightarrow> (string \<Rightarrow> bool) \<Rightarrow> registry \<Rightarrow> (string \<rightharpoonup> string list) \<Rightarrow> string \<Rightarrow>
     registry \<times> (string \<rightharpoonup> string list) \<times> string \<times> status" where
  "saveQuery h canWrite reg fs os =
     (if recentCSV reg = [] \<or> prefix ''http://'' (recentCSV reg) then
        (reg, fs, os, Threw (Exp ''Saving CSV to an URL using POST is not implemented''))
      else
        (let opened = (if canWrite (recentCSV reg) then fs(recentCSV reg \<mapsto> []) else fs) in
         case inMemoryCSV reg (recentCSV reg) of
           None \<Rightarrow> (reg, opened, os, Threw out_of_range)
         | Some csv \<Rightarrow>
             (reg,
              (if canWrite (recentCSV reg) then fs(recentCSV reg \<mapsto> printCSV h csv) else fs),
              os @ recentCSV reg @ '' saved.'' @ endl, Returned)))"

section \<open>Connection dispatcher\<close>

text \<open>
  What the worker thread needs from absent code: \<^verbatim>\<open>SQLAirBase::process\<close> (the text it
  wrote and the exception it left by, if any), \<^verbatim>\<open>what()\<close> of an exception,
  \<^verbatim>\<open>Helper::url_decode\<close> and \<^verbatim>\<open>http::file\<close>.
\<close>

record handlers =
  process :: "string \<Rightarrow> string \<times> error option"
  what :: "error \<Rightarrow> string"
  url_decode :: "string \<Rightarrow> string"
  http_file :: "string \<Rightarrow> string"

definition crlf :: string where
  "crlf = [CHR 0x0D, CHR 0x0A]"

definition HTTPRespHeader :: "nat \<Rightarrow> string" where
  "HTTPRespHeader len =
     ''HTTP/1.1 200 OK'' @ crlf @ ''Server: SimpleServer'' @ crlf @
     ''Content-Length: '' @ to_string (int len) @ crlf @
     ''Connection: Close'' @ crlf @ ''Content-Type: text/html'' @ crlf @ crlf"

datatype thr_event = NotifyOne

text \<open>
  \<^verbatim>\<open>clientThread\<close>, from the request path on: the response stream, the counter
  \<^verbatim>\<open>numThreads\<close> and the signals on \<^verbatim>\<open>thrCond\<close>. An exception of \<^verbatim>\<open>process\<close> is caught and
  reported in the response.
\<close>

definition clientThread ::
  "handlers \<Rightarrow> string \<Rightarrow> string \<Rightarrow> int \<Rightarrow> string \<times> int \<times> thr_event list" where
  "clientThread h path os numThreads =
     (let os' =
        (if contains ''/sql-air?query='' path then
           (case process h (url_decode h (drop 15 path)) of
              (out, exc) \<Rightarrow>
                (let html = (case exc of
                               None \<Rightarrow> out
                             | Some e \<Rightarrow> out @ ''Error: '' @ what h e @ endl)
                 in os @ HTTPRespHeader (length html) @ html))
         else if path \<noteq> [] then os @ http_file h (url_decode h (drop 1 path))
         else os)
      in (os', numThreads - 1, [NotifyOne]))"

text \<open>
  The server loop and its workers as a transition system. The dispatcher is either at
  the gate (\<^verbatim>\<open>thrCond.wait\<close> with the predicate \<^verbatim>\<open>numThreads <= maxThr\<close>) or has started a
  worker and not yet counted it (\<^verbatim>\<open>numThreads++\<close> comes after \<^verbatim>\<open>thr.detach()\<close>).
  \<open>workers\<close> is the number of worker threads started and not yet finished.
\<close>

datatype dispatcher = AtGate | Started

record server =
  numThreads :: int
  workers :: nat
  pc :: dispatcher
  signals :: "thr_event list"

datatype action = Admit | Count | Finish string

definition initServer :: "int \<Rightarrow> server" where
  "initServer n = \<lparr>numThreads = n, workers = 0, pc = AtGate, signals = []\<rparr>"

text \<open>One step of one thread; \<open>None\<close> when the thread cannot take that step now.\<close>

fun exec :: "handlers \<Rightarrow> int \<Rightarrow> action \<Rightarrow> server \<Rightarrow> server option" where
  "exec h maxThr Admit s =
     (if pc s = AtGate \<and> numThreads s \<le> maxThr
      then Some (s\<lparr>workers := workers s + 1, pc := Started\<rparr>) else None)"
| "exec h maxThr Count s =
     (if pc s = Started
      then Some (s\<lparr>numThreads := numThreads s + 1, pc := AtGate\<rparr>) else None)"
| "exec h maxThr (Finish path) s =
     (if 0 < workers s then
        (case clientThread h path [] (numThreads s) of
           (response, n, evs) \<Rightarrow>
             Some (s\<lparr>numThreads := n, workers := workers s - 1, signals := signals s @ evs\<rparr>))
      else None)"

fun run :: "handlers \<Rightarrow> int \<Rightarrow> action list \<Rightarrow> server \<Rightarrow> server option" where
  "run h maxThr [] s = Some s"
| "run h maxThr (a # as) s =
     (case exec h maxThr a s of None \<Rightarrow> None | Some s' \<Rightarrow> run h maxThr as s')"

section \<open>Notions used to state the properties\<close>

text \<open>The cell of a row under a column name, and the line a select prints for a row.\<close>

definition cellOf :: "CSV \<Rightarrow> string list \<Rightarrow> string \<Rightarrow> string" where
  "cellOf csv row colName = row ! the (find_col colName (columnNames csv))"

definition rowLine :: "CSV \<Rightarrow> string list \<Rightarrow> string list \<Rightarrow> string" where
  "rowLine csv colNames row = showStrVec (map (cellOf csv row) colNames) @ endl"

text \<open>
  A row satisfies the where-clause, in the words of the specification: there is no
  where-clause (the index is \<open>-1\<close>), or the row has a cell in the column of the
  where-clause and the matcher answers true for that cell, the operator and the
  literal. This is stated on the row and the matcher alone, not through the code of
  the row loops.
\<close>

definition satisfies :: "matcher \<Rightarrow> int \<Rightarrow> string \<Rightarrow> string \<Rightarrow> string list \<Rightarrow> bool" where
  "satisfies matches whereColIdx cond val row =
     (whereColIdx = -1 \<or>
      (0 \<le> whereColIdx \<and> whereColIdx < int (length row) \<and>
       matches (row ! nat whereColIdx) cond val = Inr True))"

definition selection :: "matcher \<Rightarrow> CSV \<Rightarrow> int \<Rightarrow> string \<Rightarrow> string \<Rightarrow> string list list" where
  "selection matches csv whereColIdx cond val =
     filter (satisfies matches whereColIdx cond val) (rowData csv)"

text \<open>The invariant of the data model: every row has as many cells as the header has
  columns.\<close>

definition wellFormed :: "CSV \<Rightarrow> bool" where
  "wellFormed csv = (\<forall>row \<in> set (rowData csv). length row = length (columnNames csv))"

text \<open>A where-clause the parser can hand over: none, or the index of a column together
  with an operator the matcher answers for every cell.\<close>

definition validWhere :: "matcher \<Rightarrow> CSV \<Rightarrow> int \<Rightarrow> string \<Rightarrow> string \<Rightarrow> bool" where
  "validWhere matches csv whereColIdx cond val =
     (whereColIdx = -1 \<or>
      (0 \<le> whereColIdx \<and> whereColIdx < int (length (columnNames csv)) \<and>
       (\<forall>cell. \<exists>b. matches cell cond val = Inr b)))"

text \<open>The columns a select projects, and the text it is to write for the selected rows.\<close>

definition projection :: "CSV \<Rightarrow> string list \<Rightarrow> string list" where
  "projection csv colNames = (if hd colNames = ''*'' then columnNames csv else colNames)"

definition selectOutput :: "CSV \<Rightarrow> string list \<Rightarrow> string list list \<Rightarrow> string" where
  "selectOutput csv colNames selected =
     (if selected = [] then [] else showStrVec colNames @ endl)
     @ concat (map (rowLine csv colNames) selected)
     @ to_string (int (length selected)) @ '' row(s) selected.'' @ endl"

text \<open>An updated row, cell by cell: a cell whose column is in the set list holds the
  value given for it (the last one, if the column is named twice), any other cell is
  as before.\<close>

definition assigned :: "CSV \<Rightarrow> string list \<Rightarrow> string list \<Rightarrow> string list \<Rightarrow> string list" where
  "assigned csv colNames vals row =
     map (\<lambda>(name, cell). case map_of (rev (zip colNames vals)) name of
                            None \<Rightarrow> cell
                          | Some v \<Rightarrow> v)
         (zip (columnNames csv) row)"

text \<open>Whether a thread holds \<^verbatim>\<open>csvMutex\<close> after a trace of its events: waiting on the
  condition variable gives the mutex up until the wakeup.\<close>

fun holdsCsvMutex :: "sync_event list \<Rightarrow> bool \<Rightarrow> bool" where
  "holdsCsvMutex [] held = held"
| "holdsCsvMutex (LockCsv # evs) held = holdsCsvMutex evs True"
| "holdsCsvMutex (WaitCsv # evs) held = holdsCsvMutex evs False"
| "holdsCsvMutex (WakeCsv # evs) held = holdsCsvMutex evs True"
| "holdsCsvMutex (UnlockCsv # evs) held = holdsCsvMutex evs False"
| "holdsCsvMutex (NotifyAll # evs) held = holdsCsvMutex evs held"

text \<open>The events of one round of a waiting loop that was woken.\<close>

definition wokenRound :: "sync_event list" where
  "wokenRound = [LockCsv, WaitCsv, WakeCsv, UnlockCsv]"

text \<open>The table after an update: the rows that satisfy the where-clause carry the new
  values, every other row is as it was.\<close>

definition updated ::
  "matcher \<Rightarrow> CSV \<Rightarrow> string list \<Rightarrow> string list \<Rightarrow> int \<Rightarrow> string \<Rightarrow> string \<Rightarrow> CSV" where
  "updated matches csv colNames vals whereColIdx cond val =
     csv\<lparr>rowData := map (\<lambda>row. if satisfies matches whereColIdx cond val row
                                then assigned csv colNames vals row else row) (rowData csv)\<rparr>"

text \<open>An update the parser can hand over for a table: unique column names, rows of the
  width of the header, set-columns that exist, a value for each of them, and a valid
  where-clause.\<close>

definition updatable ::
  "matcher \<Rightarrow> string list \<Rightarrow> string list \<Rightarrow> int \<Rightarrow> string \<Rightarrow> string \<Rightarrow> CSV \<Rightarrow> bool" where
  "updatable matches colNames vals whereColIdx cond val csv =
     (distinct (columnNames csv) \<and> wellFormed csv \<and> set colNames \<subseteq> set (columnNames csv) \<and>
      length colNames \<le> length vals \<and> validWhere matches csv whereColIdx cond val)"

text \<open>For the examples: a matcher that knows equality only, and the table of the
  example in the specification.\<close>

definition equalityOnly :: matcher where
  "equalityOnly cell cond val = (if cond = ''='' then Inr (cell = val) else Inl InvalidQuery)"

definition people :: CSV where
  "people = \<lparr>columnNames = [''Name'', ''Age''],
             rowData = [[''Alice'', ''30''], [''Bob'', ''25'']]\<rparr>"

text \<open>The position of the first row that satisfies the where-clause.\<close>

definition firstHit :: "matcher \<Rightarrow> int \<Rightarrow> string \<Rightarrow> string \<Rightarrow> string list list \<Rightarrow> nat" where
  "firstHit matches whereColIdx cond val rows =
     length (takeWhile (\<lambda>row. \<not> satisfies matches whereColIdx cond val row) rows)"

text \<open>For the examples: a registry in which nothing is recorded, a world with one file
  and one server that answers 404, a file system in which every path can be written,
  and stand-ins for the absent helper functions.\<close>

definition emptyRegistry :: registry where
  "emptyRegistry = \<lparr>recentCSV = [], inMemoryCSV = Map.empty\<rparr>"

definition smallWorld :: world where
  "smallWorld =
     \<lparr>files = [''people.csv'' \<mapsto> [''Name,Age'', ''Alice,30'', ''Bob,25'']],
      servers = (\<lambda>host port.
         if host = ''data.com'' \<and> port = ''8080''
         then Some (\<lambda>path. [''HTTP/1.1 404 Not Found'', [], ''gone''])
         else None)\<rparr>"

definition anyPath :: "string \<Rightarrow> bool" where
  "anyPath path = True"

definition standIns :: helpers where
  "standIns =
     \<lparr>breakDownURL = (\<lambda>url. (''data.com'', ''8080'', ''/test.csv'')),
      trim = (\<lambda>s. s),
      parseCSV = (\<lambda>ls. if ls = [] then None else Some people),
      printCSV = (\<lambda>csv. [])\<rparr>"

text \<open>A table a select with these columns and this where-clause scans without an
  exception.\<close>

definition scannable :: "matcher \<Rightarrow> string list \<Rightarrow> int \<Rightarrow> string \<Rightarrow> string \<Rightarrow> CSV \<Rightarrow> bool" where
  "scannable matches colNames whereColIdx cond val csv =
     (set colNames \<subseteq> set (columnNames csv) \<and> wellFormed csv \<and>
      validWhere matches csv whereColIdx cond val)"

text \<open>The events of \<open>n\<close> rounds of a waiting loop.\<close>

definition wokenRounds :: "nat \<Rightarrow> sync_event list" where
  "wokenRounds n = concat (replicate n wokenRound)"

text \<open>What holds in every state of the server that started with the counter at \<open>n0\<close>:
  the counter is \<open>n0\<close> plus the number of workers, less the one just started and not
  yet counted; and the number of workers is bounded.\<close>

definition gateInvariant :: "int \<Rightarrow> int \<Rightarrow> server \<Rightarrow> bool" where
  "gateInvariant maxThr n0 s =
     (numThreads s + (if pc s = Started then 1 else 0) = n0 + int (workers s) \<and>
      int (workers s) \<le> max 0 (maxThr + 1 - n0))"

section \<open>Properties\<close>

subsection \<open>Column lookup and the scan of a select\<close>

lemma find_col_None: "find_col c xs = None \<longleftrightarrow> c \<notin> set xs"
  by (induction xs) auto

lemma find_col_Some: "find_col c xs = Some k \<Longrightarrow> k < length xs \<and> xs ! k = c"
  by (induction xs arbitrary: k) (auto split: if_splits)

lemma getColumnIndex_known:
  assumes "c \<in> set (columnNames csv)"
  shows "\<exists>k. find_col c (columnNames csv) = Some k \<and> getColumnIndex csv c = Inr (int k)
             \<and> k < length (columnNames csv)"
proof -
  from assms obtain k where k: "find_col c (columnNames csv) = Some k"
    using find_col_None [of c "columnNames csv"] by (cases "find_col c (columnNames csv)") auto
  with find_col_Some [OF k] show ?thesis by (simp add: getColumnIndex_def)
qed

lemma getColumnIndex_unknown:
  "c \<notin> set (columnNames csv) \<Longrightarrow> getColumnIndex csv c = Inl InvalidColumn"
  by (simp add: getColumnIndex_def find_col_None [THEN iffD2])

lemma to_string_small:
  "to_string 0 = ''0''" "to_string 1 = ''1''" "to_string 2 = ''2''"
  by code_simp+

lemma selectCells_ok:
  assumes "set colNames \<subseteq> set (columnNames csv)" and "length row = length (columnNames csv)"
  shows "selectCells csv row colNames delim rowText =
           Inr (rowText @ (if colNames = [] then []
                           else delim @ showStrVec (map (cellOf csv row) colNames)))"
  using assms
proof (induction colNames arbitrary: delim rowText)
  case Nil
  then show ?case by simp
next
  case (Cons c cs)
  from Cons.prems obtain k where k: "find_col c (columnNames csv) = Some k"
      "getColumnIndex csv c = Inr (int k)" "k < length (columnNames csv)"
    using getColumnIndex_known [of c csv] by auto
  have cell: "at row (int k) = Inr (cellOf csv row c)"
    using k Cons.prems by (simp add: at_def cellOf_def)
  have IH: "selectCells csv row cs tab (rowText @ delim @ cellOf csv row c) =
      Inr ((rowText @ delim @ cellOf csv row c) @
           (if cs = [] then [] else tab @ showStrVec (map (cellOf csv row) cs)))"
    using Cons.IH Cons.prems by simp
  show ?case
  proof (cases cs)
    case Nil
    with k cell IH show ?thesis by simp
  next
    case (Cons d ds)
    with k cell IH show ?thesis by simp
  qed
qed

text \<open>The test both row loops compute is the where-clause of the specification: the
  loops take a row exactly when it satisfies the where-clause.\<close>

lemma isMatch_satisfies:
  "(isMatch matches row whereColIdx cond val = Inr True) =
     satisfies matches whereColIdx cond val row"
  by (auto simp: isMatch_def satisfies_def at_def split: sum.splits)

lemma isMatch_valid:
  assumes "validWhere matches csv whereColIdx cond val"
    and "length row = length (columnNames csv)"
  shows "isMatch matches row whereColIdx cond val =
           Inr (satisfies matches whereColIdx cond val row)"
proof (cases "whereColIdx = -1")
  case True
  then show ?thesis by (simp add: isMatch_def satisfies_def)
next
  case False
  with assms have r: "0 \<le> whereColIdx" "whereColIdx < int (length row)"
    and t: "\<forall>cell. \<exists>b. matches cell cond val = Inr b"
    by (auto simp: validWhere_def)
  from t obtain b where b: "matches (row ! nat whereColIdx) cond val = Inr b" by blast
  with False r show ?thesis by (simp add: isMatch_def satisfies_def at_def)
qed

lemma selectRows_ok:
  assumes "set colNames \<subseteq> set (columnNames csv)"
    and "\<forall>row \<in> set rows. length row = length (columnNames csv)"
    and "validWhere matches csv whereColIdx cond val"
  shows "selectRows matches csv rows colNames whereColIdx cond val (rowText, rowCount) =
           Inr (rowText @ concat (map (rowLine csv colNames)
                                    (filter (satisfies matches whereColIdx cond val) rows)),
                rowCount + int (length (filter (satisfies matches whereColIdx cond val) rows)))"
  using assms
proof (induction rows arbitrary: rowText rowCount)
  case Nil
  then show ?case by simp
next
  case (Cons row rest)
  have m: "isMatch matches row whereColIdx cond val =
             Inr (satisfies matches whereColIdx cond val row)"
    using Cons.prems isMatch_valid by simp
  have c: "selectCells csv row colNames [] rowText =
             Inr (rowText @ showStrVec (map (cellOf csv row) colNames))"
    using selectCells_ok [of colNames csv row "[]" rowText] Cons.prems by (cases colNames) auto
  show ?case
  proof (cases "satisfies matches whereColIdx cond val row")
    case True
    with m c Cons.prems
      Cons.IH [of "rowText @ showStrVec (map (cellOf csv row) colNames) @ endl" "rowCount + 1"]
    show ?thesis by (simp add: rowLine_def)
  next
    case False
    with m Cons.IH [of rowText rowCount] Cons.prems show ?thesis by simp
  qed
qed

lemma selectRowProcess_ok:
  assumes "set colNames \<subseteq> set (columnNames csv)" and "wellFormed csv"
    and "validWhere matches csv whereColIdx cond val"
  shows "selectRowProcess matches csv colNames whereColIdx cond val (rowText, rowCount) =
           Inr (rowText @ concat (map (rowLine csv colNames)
                                    (selection matches csv whereColIdx cond val)),
                rowCount + int (length (selection matches csv whereColIdx cond val)))"
  using assms selectRows_ok [of colNames csv "rowData csv" matches whereColIdx cond val]
  by (simp add: selectRowProcess_def selection_def wellFormed_def)

lemma selectWait_nowait:
  "selectWait matches colNames whereColIdx cond val wakeups False st = (st, [], Returned)"
  by (cases wakeups; cases st) simp_all

lemma selectQuery_never_blocked:
  "snd (snd (selectQuery matches csv False colNames whereColIdx cond val os wakeups)) \<noteq> Blocked"
  by (auto simp: selectQuery_def selectWait_nowait Let_def
           split: list.splits sum.splits prod.splits)

lemma selectQuery_known:
  assumes "colNames \<noteq> []" and "set (projection csv colNames) \<subseteq> set (columnNames csv)"
    and "wellFormed csv" and "validWhere matches csv whereColIdx cond val"
  shows "selectQuery matches csv False colNames whereColIdx cond val os wakeups =
           (os @ selectOutput csv (projection csv colNames)
                   (selection matches csv whereColIdx cond val),
            [], Returned)"
proof -
  from assms(1) obtain first others where cn: "colNames = first # others"
    by (cases colNames) auto
  let ?cols = "projection csv colNames"
  have scan: "selectRowProcess matches csv ?cols whereColIdx cond val ([], 0) =
      Inr (concat (map (rowLine csv ?cols) (selection matches csv whereColIdx cond val)),
           int (length (selection matches csv whereColIdx cond val)))"
    using assms selectRowProcess_ok [of ?cols csv matches whereColIdx cond val "[]" 0] by simp
  have p: "(if first = ''*'' then getColumnNames csv else colNames) = ?cols"
    by (simp add: projection_def cn getColumnNames_def)
  show ?thesis
    unfolding selectQuery_def cn list.case Let_def p [unfolded cn]
    using scan [unfolded cn] by (simp add: selectWait_nowait selectOutput_def)
qed

subsection \<open>Select without waiting\<close>

text \<open>
  C1. A \<^verbatim>\<open>selectQuery\<close> that is not asked to wait never ends blocked, whatever its
  arguments. For a table whose rows all have the width of the header, requested columns
  that exist (or the wildcard) and a where-clause the matcher answers, it returns
  having appended to the stream: the header line of the projected columns if at least
  one row satisfies the where-clause, then one tab-delimited line for each satisfying
  row in the order of the table (every row when there is no where-clause), then the
  line with the number of those rows, which is \<open>0 row(s) selected.\<close> without a header
  when there is none. It does not wait on the condition variable of the table.
\<close>

theorem selectQuery_nowait:
  "snd (snd (selectQuery matches csv False colNames whereColIdx cond val os wakeups)) \<noteq> Blocked \<and>
   (colNames \<noteq> [] \<and> set (projection csv colNames) \<subseteq> set (columnNames csv) \<and> wellFormed csv \<and>
    validWhere matches csv whereColIdx cond val \<longrightarrow>
    selectQuery matches csv False colNames whereColIdx cond val os wakeups =
      (os @ selectOutput csv (projection csv colNames)
              (selection matches csv whereColIdx cond val),
       [], Returned))"
  using selectQuery_never_blocked selectQuery_known by blast

theorem selectQuery_nowait_witness:
  "[''Name''] \<noteq> [] \<and> set (projection people [''Name'']) \<subseteq> set (columnNames people) \<and>
   wellFormed people \<and> validWhere equalityOnly people 1 ''='' ''30'' \<and>
   selectQuery equalityOnly people False [''Name''] 1 ''='' ''30'' [] [] =
     (''Name'' @ endl @ ''Alice'' @ endl @ ''1 row(s) selected.'' @ endl, [], Returned)"
  using selectQuery_nowait [of equalityOnly people "[''Name'']" 1 "''=''" "''30''" "[]" "[]"]
  by (simp add: projection_def wellFormed_def validWhere_def selectOutput_def selection_def
      satisfies_def isMatch_def at_def rowLine_def cellOf_def to_string_small
      equalityOnly_def people_def)

subsection \<open>Update\<close>

lemma assigned_Nil:
  "length row = length (columnNames csv) \<Longrightarrow> assigned csv [] vals row = row"
  by (rule nth_equalityI) (simp_all add: assigned_def)

lemma assigned_Cons:
  assumes d: "distinct (columnNames csv)" and l: "length row = length (columnNames csv)"
    and k: "find_col c (columnNames csv) = Some k"
  shows "assigned csv cs vs (row[k := v]) = assigned csv (c # cs) (v # vs) row"
proof (rule nth_equalityI)
  show "length (assigned csv cs vs (row[k := v])) = length (assigned csv (c # cs) (v # vs) row)"
    by (simp add: assigned_def)
next
  fix j assume "j < length (assigned csv cs vs (row[k := v]))"
  then have j: "j < length (columnNames csv)" "j < length row" using l by (simp_all add: assigned_def)
  from find_col_Some [OF k] have kk: "k < length (columnNames csv)" "columnNames csv ! k = c" by simp_all
  have eq: "(columnNames csv ! j = c) = (j = k)"
    using d j kk nth_eq_iff_index_eq by blast
  show "assigned csv cs vs (row[k := v]) ! j = assigned csv (c # cs) (v # vs) row ! j"
    using j eq by (auto simp: assigned_def map_add_def split: option.splits)
qed

lemma updateCells_ok:
  assumes "distinct (columnNames csv)" and "set colNames \<subseteq> set (columnNames csv)"
    and "length colNames \<le> length vals" and "length row = length (columnNames csv)"
  shows "updateCells csv colNames vals row = (assigned csv colNames vals row, None)"
  using assms
proof (induction colNames arbitrary: vals row)
  case Nil
  then show ?case by (simp add: assigned_Nil)
next
  case (Cons c cs)
  from Cons.prems obtain v vs where vals: "vals = v # vs" by (cases vals) auto
  from Cons.prems obtain k where k: "find_col c (columnNames csv) = Some k"
      "getColumnIndex csv c = Inr (int k)" "k < length (columnNames csv)"
    using getColumnIndex_known [of c csv] by auto
  have "updateCells csv cs vs (row[k := v]) = (assigned csv cs vs (row[k := v]), None)"
    using Cons.IH [of vs "row[k := v]"] Cons.prems vals by simp
  with k Cons.prems vals show ?case
    by (simp add: assigned_Cons)
qed

lemma updateRows_ok:
  assumes "distinct (columnNames csv)" and "set colNames \<subseteq> set (columnNames csv)"
    and "length colNames \<le> length vals"
    and "\<forall>row \<in> set rows. length row = length (columnNames csv)"
    and "validWhere matches csv whereColIdx cond val"
  shows "updateRows matches csv colNames vals whereColIdx cond val rows rowCount =
           ((map (\<lambda>row. if satisfies matches whereColIdx cond val row
                         then assigned csv colNames vals row else row) rows,
             rowCount + int (length (filter (satisfies matches whereColIdx cond val) rows))),
            None)"
  using assms
proof (induction rows arbitrary: rowCount)
  case Nil
  then show ?case by simp
next
  case (Cons row rest)
  have m: "isMatch matches row whereColIdx cond val =
             Inr (satisfies matches whereColIdx cond val row)"
    using Cons.prems isMatch_valid by simp
  have c: "updateCells csv colNames vals row = (assigned csv colNames vals row, None)"
    using updateCells_ok Cons.prems by simp
  show ?case
  proof (cases "satisfies matches whereColIdx cond val row")
    case True
    with m c Cons.IH [of "rowCount + 1"] Cons.prems show ?thesis by simp
  next
    case False
    with m Cons.IH [of rowCount] Cons.prems show ?thesis by simp
  qed
qed

lemma updateRowProcess_ok:
  assumes "updatable matches colNames vals whereColIdx cond val csv"
  shows "updateRowProcess matches csv colNames vals whereColIdx cond val rowCount =
           ((updated matches csv colNames vals whereColIdx cond val,
             rowCount + int (length (selection matches csv whereColIdx cond val))), None)"
  using assms updateRows_ok [of csv colNames vals "rowData csv" matches whereColIdx cond val rowCount]
  by (simp add: updateRowProcess_def updatable_def wellFormed_def selection_def updated_def)

lemma updateWait_done:
  "\<not> (rowCount = 0 \<and> mustWait) \<Longrightarrow>
   updateWait matches colNames vals whereColIdx cond val wakeups mustWait (csv, rowCount) =
     ((csv, rowCount), [], Returned)"
  by (cases wakeups) auto

text \<open>
  C2. For a table with unique column names and rows of the width of the header,
  set-columns that exist with a value each, and a valid where-clause (and, if the query
  is to wait, at least one row that satisfies it, so that it does not wait):
  \<^verbatim>\<open>updateQuery\<close> returns with every row that satisfies the where-clause (every row when
  there is none) carrying the new values in the set-columns and its other cells
  unchanged, every other row unchanged, and exactly one line \<open>N row(s) updated.\<close>
  appended to the stream, \<open>N\<close> being the number of rows that satisfy the where-clause.
\<close>

theorem updateQuery_frame:
  assumes "updatable matches colNames vals whereColIdx cond val csv"
    and "mustWait \<longrightarrow> selection matches csv whereColIdx cond val \<noteq> []"
  shows "updateQuery matches csv mustWait colNames vals whereColIdx cond val os wakeups =
           (updated matches csv colNames vals whereColIdx cond val,
            os @ to_string (int (length (selection matches csv whereColIdx cond val)))
               @ '' row(s) updated.'' @ endl,
            (if selection matches csv whereColIdx cond val = [] then [] else [NotifyAll]),
            Returned)"
proof -
  let ?n = "int (length (selection matches csv whereColIdx cond val))"
  have w: "\<not> (?n = 0 \<and> mustWait)" using assms(2) by auto
  show ?thesis
    unfolding updateQuery_def
    using updateRowProcess_ok [OF assms(1), of 0] updateWait_done [OF w]
    by simp
qed

theorem updateQuery_frame_witness:
  "updatable equalityOnly [''Age''] [''31''] 0 ''='' ''Alice'' people \<and>
   selection equalityOnly people 0 ''='' ''Alice'' \<noteq> [] \<and>
   updateQuery equalityOnly people True [''Age''] [''31''] 0 ''='' ''Alice'' [] [] =
     (people\<lparr>rowData := [[''Alice'', ''31''], [''Bob'', ''25'']]\<rparr>,
      ''1 row(s) updated.'' @ endl, [NotifyAll], Returned)"
  using updateQuery_frame
    [of equalityOnly "[''Age'']" "[''31'']" 0 "''=''" "''Alice''" people True "[]" "[]"]
  by (simp add: updatable_def wellFormed_def validWhere_def selection_def updated_def assigned_def
      satisfies_def isMatch_def at_def to_string_small equalityOnly_def people_def)

subsection \<open>Column names that are not in the header\<close>

lemma selectCells_unknown:
  assumes "\<not> set colNames \<subseteq> set (columnNames csv)" and "length row = length (columnNames csv)"
  shows "selectCells csv row colNames delim rowText = Inl InvalidColumn"
  using assms
proof (induction colNames arbitrary: delim rowText)
  case Nil
  then show ?case by simp
next
  case (Cons c cs)
  show ?case
  proof (cases "c \<in> set (columnNames csv)")
    case False
    then show ?thesis by (simp add: getColumnIndex_unknown)
  next
    case True
    then obtain k where k: "getColumnIndex csv c = Inr (int k)" "k < length (columnNames csv)"
      using getColumnIndex_known [of c csv] by auto
    from True Cons.prems have "\<not> set cs \<subseteq> set (columnNames csv)" by auto
    with Cons.IH Cons.prems k show ?thesis by (simp add: at_def)
  qed
qed

lemma selectRows_unknown:
  assumes "\<not> set colNames \<subseteq> set (columnNames csv)"
    and "\<forall>row \<in> set rows. length row = length (columnNames csv)"
    and "validWhere matches csv whereColIdx cond val"
  shows "selectRows matches csv rows colNames whereColIdx cond val (rowText, rowCount) =
           (if filter (satisfies matches whereColIdx cond val) rows = []
            then Inr (rowText, rowCount) else Inl InvalidColumn)"
  using assms
proof (induction rows)
  case Nil
  then show ?case by simp
next
  case (Cons row rest)
  have m: "isMatch matches row whereColIdx cond val =
             Inr (satisfies matches whereColIdx cond val row)"
    using Cons.prems isMatch_valid by simp
  have c: "selectCells csv row colNames [] rowText = Inl InvalidColumn"
    using selectCells_unknown Cons.prems by simp
  show ?case
    using m c Cons by (cases "satisfies matches whereColIdx cond val row") simp_all
qed

lemma selectQuery_unknown:
  assumes "first \<noteq> ''*''" and "\<not> set (first # others) \<subseteq> set (columnNames csv)"
    and "wellFormed csv" and "validWhere matches csv whereColIdx cond val"
  shows "selectQuery matches csv False (first # others) whereColIdx cond val os wakeups =
           (if selection matches csv whereColIdx cond val = []
            then (os @ ''0 row(s) selected.'' @ endl, [], Returned)
            else (os, [], Threw InvalidColumn))"
proof -
  have "selectRowProcess matches csv (first # others) whereColIdx cond val ([], 0) =
          (if selection matches csv whereColIdx cond val = []
           then Inr ([], 0) else Inl InvalidColumn)"
    using assms selectRows_unknown [of "first # others" csv "rowData csv" matches whereColIdx cond val "[]" 0]
    by (simp add: selectRowProcess_def selection_def wellFormed_def)
  with assms(1) show ?thesis
    by (simp add: selectQuery_def selectWait_nowait to_string_small)
qed

lemma updateCells_length:
  "length (fst (updateCells csv colNames vals row)) = length row"
  by (induction csv colNames vals row rule: updateCells.induct) (auto split: sum.splits)

lemma updateCells_unknown:
  assumes "\<not> set colNames \<subseteq> set (columnNames csv)" and "length colNames \<le> length vals"
    and "length row = length (columnNames csv)"
  shows "snd (updateCells csv colNames vals row) = Some InvalidColumn"
  using assms
proof (induction colNames arbitrary: vals row)
  case Nil
  then show ?case by simp
next
  case (Cons c cs)
  from Cons.prems obtain v vs where vals: "vals = v # vs" by (cases vals) auto
  show ?case
  proof (cases "c \<in> set (columnNames csv)")
    case False
    then show ?thesis by (simp add: vals getColumnIndex_unknown)
  next
    case True
    then obtain k where k: "getColumnIndex csv c = Inr (int k)" "k < length (columnNames csv)"
      using getColumnIndex_known [of c csv] by auto
    from True Cons.prems have "\<not> set cs \<subseteq> set (columnNames csv)" by auto
    with Cons.IH [of vs "row[k := v]"] Cons.prems k vals show ?thesis by simp
  qed
qed

lemma updateRows_unknown:
  assumes "\<not> set colNames \<subseteq> set (columnNames csv)" and "length colNames \<le> length vals"
    and "\<forall>row \<in> set rows. length row = length (columnNames csv)"
    and "validWhere matches csv whereColIdx cond val"
  shows "updateRows matches csv colNames vals whereColIdx cond val rows rowCount =
           (if filter (satisfies matches whereColIdx cond val) rows = []
            then ((rows, rowCount), None)
            else ((rows[firstHit matches whereColIdx cond val rows :=
                          fst (updateCells csv colNames vals
                                 (rows ! firstHit matches whereColIdx cond val rows))],
                   rowCount), Some InvalidColumn))"
  using assms
proof (induction rows)
  case Nil
  then show ?case by simp
next
  case (Cons row rest)
  have m: "isMatch matches row whereColIdx cond val =
             Inr (satisfies matches whereColIdx cond val row)"
    using Cons.prems isMatch_valid by simp
  have c: "snd (updateCells csv colNames vals row) = Some InvalidColumn"
    using updateCells_unknown Cons.prems by simp
  show ?case
  proof (cases "satisfies matches whereColIdx cond val row")
    case True
    with m c show ?thesis
      by (cases "updateCells csv colNames vals row") (simp add: firstHit_def)
  next
    case False
    with m Cons show ?thesis by (simp add: firstHit_def)
  qed
qed

lemma updateQuery_unknown:
  assumes "\<not> set colNames \<subseteq> set (columnNames csv)" and "length colNames \<le> length vals"
    and "wellFormed csv" and "validWhere matches csv whereColIdx cond val"
  shows "updateQuery matches csv False colNames vals whereColIdx cond val os wakeups =
           (if selection matches csv whereColIdx cond val = []
            then (csv, os @ ''0 row(s) updated.'' @ endl, [], Returned)
            else (csv\<lparr>rowData := (rowData csv)[firstHit matches whereColIdx cond val (rowData csv) :=
                          fst (updateCells csv colNames vals
                                 (rowData csv ! firstHit matches whereColIdx cond val (rowData csv)))]\<rparr>,
                  os, [], Threw InvalidColumn))"
proof -
  have "updateRows matches csv colNames vals whereColIdx cond val (rowData csv) 0 =
           (if selection matches csv whereColIdx cond val = []
            then ((rowData csv, 0), None)
            else (((rowData csv)[firstHit matches whereColIdx cond val (rowData csv) :=
                          fst (updateCells csv colNames vals
                                 (rowData csv ! firstHit matches whereColIdx cond val (rowData csv)))],
                   0), Some InvalidColumn))"
    using assms updateRows_unknown [of colNames csv vals "rowData csv" matches whereColIdx cond val 0]
    by (simp add: selection_def wellFormed_def)
  then show ?thesis
    by (simp add: updateQuery_def updateRowProcess_def updateWait_done to_string_small)
qed

text \<open>
  C8, as the code has it. Column names are looked up row by row, inside the loop over
  the rows and only for a row that satisfies the where-clause. A select without wait
  whose column list does not start with the wildcard and names a column that is not in
  the header signals InvalidColumn exactly when at least one row satisfies the
  where-clause, and then nothing is written to the stream; when no row satisfies it,
  the select returns with \<open>0 row(s) selected.\<close>. An update without wait whose set list
  names a column that is not in the header signals InvalidColumn exactly when at least
  one row satisfies the where-clause; then no line is written, nobody is notified and no
  row other than the first satisfying row differs from before; when no row satisfies
  the where-clause the update returns with \<open>0 row(s) updated.\<close> and the table as it was.
  The column of the where-clause reaches the executor as an index already.
\<close>

theorem invalid_column:
  "(first \<noteq> ''*'' \<and> \<not> set (first # others) \<subseteq> set (columnNames csv) \<and> wellFormed csv \<and>
    validWhere matches csv whereColIdx cond val \<longrightarrow>
      selectQuery matches csv False (first # others) whereColIdx cond val os wakeups =
        (if selection matches csv whereColIdx cond val = []
         then (os @ ''0 row(s) selected.'' @ endl, [], Returned)
         else (os, [], Threw InvalidColumn)))
   \<and>
   (\<not> set colNames \<subseteq> set (columnNames csv) \<and> length colNames \<le> length vals \<and> wellFormed csv \<and>
    validWhere matches csv whereColIdx cond val \<longrightarrow>
      (if selection matches csv whereColIdx cond val = []
       then updateQuery matches csv False colNames vals whereColIdx cond val os wakeups =
              (csv, os @ ''0 row(s) updated.'' @ endl, [], Returned)
       else \<exists>row'. updateQuery matches csv False colNames vals whereColIdx cond val os wakeups =
              (csv\<lparr>rowData := (rowData csv)
                      [firstHit matches whereColIdx cond val (rowData csv) := row']\<rparr>,
               os, [], Threw InvalidColumn)))"
  using selectQuery_unknown [of first others csv matches whereColIdx cond val os wakeups]
    updateQuery_unknown [of colNames csv vals matches whereColIdx cond val os wakeups]
  by auto

theorem invalid_column_witness:
  "(''Name'' \<noteq> ''*'' \<and> \<not> set [''Name'', ''Bad''] \<subseteq> set (columnNames people) \<and> wellFormed people \<and>
    validWhere equalityOnly people 1 ''='' ''30'') \<and>
   selectQuery equalityOnly people False [''Name'', ''Bad''] 1 ''='' ''30'' [] [] =
     ([], [], Threw InvalidColumn) \<and>
   (\<not> set [''Bad''] \<subseteq> set (columnNames people) \<and> length [''Bad''] \<le> length [''x''] \<and>
    wellFormed people \<and> validWhere equalityOnly people 1 ''='' ''30'') \<and>
   updateQuery equalityOnly people False [''Bad''] [''x''] 1 ''='' ''30'' [] [] =
     (people, [], [], Threw InvalidColumn)"
  using invalid_column [of "''Name''" "[''Bad'']" people equalityOnly 1 "''=''" "''30''" "[]" "[]"
      "[''Bad'']" "[''x'']"]
  by (simp add: wellFormed_def validWhere_def selection_def satisfies_def isMatch_def at_def
      equalityOnly_def people_def updateQuery_def updateRowProcess_def getColumnIndex_def)

text \<open>
  Against C8 as stated: a select of the unknown column \<open>Bad\<close> where no row matches
  returns normally, and an update of \<open>Age\<close> and \<open>Bad\<close> has written \<open>Age\<close> into the matching
  row when it throws.
\<close>

theorem invalid_column_counterexample:
  "''Bad'' \<notin> set (columnNames people) \<and>
   selectQuery equalityOnly people False [''Bad''] 1 ''='' ''99'' [] [] =
     (''0 row(s) selected.'' @ endl, [], Returned) \<and>
   updateQuery equalityOnly people False [''Age'', ''Bad''] [''31'', ''x''] 0 ''='' ''Alice'' [] [] =
     (people\<lparr>rowData := [[''Alice'', ''31''], [''Bob'', ''25'']]\<rparr>, [], [], Threw InvalidColumn)"
  by (simp add: selectQuery_def selectRowProcess_def updateQuery_def updateRowProcess_def
      isMatch_def at_def getColumnIndex_def equalityOnly_def people_def to_string_small)

subsection \<open>The wildcard\<close>

lemma find_col_nth:
  "distinct xs \<Longrightarrow> k < length xs \<Longrightarrow> find_col (xs ! k) xs = Some k"
proof (induction xs arbitrary: k)
  case Nil
  then show ?case by simp
next
  case (Cons x xs)
  then show ?case by (cases k) auto
qed

lemma rowLine_all:
  assumes "distinct (columnNames csv)" and "length row = length (columnNames csv)"
  shows "rowLine csv (columnNames csv) row = showStrVec row @ endl"
proof -
  have "map (cellOf csv row) (columnNames csv) = row"
    using assms by (intro nth_equalityI) (simp_all add: cellOf_def find_col_nth)
  then show ?thesis by (simp add: rowLine_def)
qed

lemma selectOutput_all:
  assumes "distinct (columnNames csv)" and "\<forall>row \<in> set selected. length row = length (columnNames csv)"
  shows "selectOutput csv (columnNames csv) selected =
     (if selected = [] then [] else showStrVec (columnNames csv) @ endl)
     @ concat (map (\<lambda>row. showStrVec row @ endl) selected)
     @ to_string (int (length selected)) @ '' row(s) selected.'' @ endl"
proof -
  have eq: "map (rowLine csv (columnNames csv)) selected =
      map (\<lambda>row. showStrVec row @ endl) selected"
    by (rule map_cong [OF refl]) (simp add: assms rowLine_all)
  show ?thesis unfolding selectOutput_def eq by simp
qed

text \<open>
  C10. When the first requested name is \<open>*\<close>, whatever follows it, the select projects
  the columns of the table: the header line is the header of the table and every line
  is a whole row. When the first name is not \<open>*\<close> the requested list is used as it is:
  with names that all exist the lines hold exactly those columns, and a \<open>*\<close> further
  back that the table has no column for is looked up like any unknown name, so that
  the select signals InvalidColumn as soon as a row satisfies the where-clause.
\<close>

theorem wildcard_first_only:
  "(distinct (columnNames csv) \<and> wellFormed csv \<and> validWhere matches csv whereColIdx cond val \<longrightarrow>
      selectQuery matches csv False (''*'' # others) whereColIdx cond val os wakeups =
        (os @ (if selection matches csv whereColIdx cond val = [] then []
               else showStrVec (columnNames csv) @ endl)
            @ concat (map (\<lambda>row. showStrVec row @ endl) (selection matches csv whereColIdx cond val))
            @ to_string (int (length (selection matches csv whereColIdx cond val)))
            @ '' row(s) selected.'' @ endl,
         [], Returned))
   \<and>
   (first \<noteq> ''*'' \<and> set (first # others) \<subseteq> set (columnNames csv) \<and> wellFormed csv \<and>
    validWhere matches csv whereColIdx cond val \<longrightarrow>
      selectQuery matches csv False (first # others) whereColIdx cond val os wakeups =
        (os @ selectOutput csv (first # others) (selection matches csv whereColIdx cond val),
         [], Returned))
   \<and>
   (first \<noteq> ''*'' \<and> ''*'' \<in> set others \<and> ''*'' \<notin> set (columnNames csv) \<and> wellFormed csv \<and>
    validWhere matches csv whereColIdx cond val \<longrightarrow>
      selectQuery matches csv False (first # others) whereColIdx cond val os wakeups =
        (if selection matches csv whereColIdx cond val = []
         then (os @ ''0 row(s) selected.'' @ endl, [], Returned)
         else (os, [], Threw InvalidColumn)))"
proof (intro conjI impI)
  assume a: "distinct (columnNames csv) \<and> wellFormed csv \<and> validWhere matches csv whereColIdx cond val"
  then have "\<forall>row \<in> set (selection matches csv whereColIdx cond val). length row = length (columnNames csv)"
    by (auto simp: wellFormed_def selection_def)
  with a selectQuery_known [of "''*'' # others" csv matches whereColIdx cond val os wakeups]
    selectOutput_all [of csv "selection matches csv whereColIdx cond val"]
  show "selectQuery matches csv False (''*'' # others) whereColIdx cond val os wakeups =
        (os @ (if selection matches csv whereColIdx cond val = [] then []
               else showStrVec (columnNames csv) @ endl)
            @ concat (map (\<lambda>row. showStrVec row @ endl) (selection matches csv whereColIdx cond val))
            @ to_string (int (length (selection matches csv whereColIdx cond val)))
            @ '' row(s) selected.'' @ endl,
         [], Returned)"
    by (simp add: projection_def)
next
  assume "first \<noteq> ''*'' \<and> set (first # others) \<subseteq> set (columnNames csv) \<and> wellFormed csv \<and>
    validWhere matches csv whereColIdx cond val"
  with selectQuery_known [of "first # others" csv matches whereColIdx cond val os wakeups]
  show "selectQuery matches csv False (first # others) whereColIdx cond val os wakeups =
        (os @ selectOutput csv (first # others) (selection matches csv whereColIdx cond val),
         [], Returned)"
    by (simp add: projection_def)
next
  assume a: "first \<noteq> ''*'' \<and> ''*'' \<in> set others \<and> ''*'' \<notin> set (columnNames csv) \<and>
    wellFormed csv \<and> validWhere matches csv whereColIdx cond val"
  then have "\<not> set (first # others) \<subseteq> set (columnNames csv)" by auto
  with a selectQuery_unknown [of first "others" csv matches whereColIdx cond val os wakeups]
  show "selectQuery matches csv False (first # others) whereColIdx cond val os wakeups =
        (if selection matches csv whereColIdx cond val = []
         then (os @ ''0 row(s) selected.'' @ endl, [], Returned)
         else (os, [], Threw InvalidColumn))"
    by auto
qed

theorem wildcard_first_only_witness:
  "(distinct (columnNames people) \<and> wellFormed people \<and> validWhere equalityOnly people (-1) [] []) \<and>
   selectQuery equalityOnly people False [''*'', ''Bad''] (-1) [] [] [] [] =
     (''Name'' @ tab @ ''Age'' @ endl @ ''Alice'' @ tab @ ''30'' @ endl @ ''Bob'' @ tab @ ''25'' @ endl
        @ ''2 row(s) selected.'' @ endl, [], Returned) \<and>
   (''Age'' \<noteq> ''*'' \<and> set [''Age'', ''Name''] \<subseteq> set (columnNames people)) \<and>
   selectQuery equalityOnly people False [''Age'', ''Name''] (-1) [] [] [] [] =
     (''Age'' @ tab @ ''Name'' @ endl @ ''30'' @ tab @ ''Alice'' @ endl @ ''25'' @ tab @ ''Bob'' @ endl
        @ ''2 row(s) selected.'' @ endl, [], Returned) \<and>
   (''Name'' \<noteq> ''*'' \<and> ''*'' \<in> set [''*''] \<and> ''*'' \<notin> set (columnNames people)) \<and>
   selectQuery equalityOnly people False [''Name'', ''*''] (-1) [] [] [] [] =
     ([], [], Threw InvalidColumn)"
  using wildcard_first_only [of people equalityOnly "-1" "[]" "[]" "[''Bad'']" "[]" "[]" "''Age''"]
    wildcard_first_only [of people equalityOnly "-1" "[]" "[]" "[''Name'']" "[]" "[]" "''Age''"]
    wildcard_first_only [of people equalityOnly "-1" "[]" "[]" "[''*'']" "[]" "[]" "''Name''"]
  by (simp add: wellFormed_def validWhere_def selection_def satisfies_def isMatch_def
      selectOutput_def rowLine_def cellOf_def people_def to_string_small)

subsection \<open>What is not implemented\<close>

text \<open>
  C9. \<^verbatim>\<open>insertQuery\<close> and \<^verbatim>\<open>deleteQuery\<close> throw their not-implemented exception for
  every input, and \<^verbatim>\<open>saveQuery\<close> throws its not-implemented exception whenever the
  identifier of the current table is a URL (begins with \<open>http://\<close>). In all three cases
  the table, the tables in memory, the files and the stream are as before.
\<close>

theorem not_implemented:
  "insertQuery csv mustWait colNames vals os =
     (csv, os, Threw (Exp ''insert is not yet implemented.'')) \<and>
   deleteQuery csv mustWait whereColIdx cond val os =
     (csv, os, Threw (Exp ''delete is not yet implemented.'')) \<and>
   (prefix ''http://'' (recentCSV reg) \<longrightarrow>
      saveQuery h canWrite reg fs os =
        (reg, fs, os, Threw (Exp ''Saving CSV to an URL using POST is not implemented'')))"
  by (simp add: insertQuery_def deleteQuery_def saveQuery_def)

theorem not_implemented_witness:
  "prefix ''http://'' (recentCSV (emptyRegistry\<lparr>recentCSV := ''http://data.com:8080/test.csv''\<rparr>)) \<and>
   saveQuery standIns anyPath (emptyRegistry\<lparr>recentCSV := ''http://data.com:8080/test.csv''\<rparr>)
       (files smallWorld) [] =
     (emptyRegistry\<lparr>recentCSV := ''http://data.com:8080/test.csv''\<rparr>, files smallWorld, [],
      Threw (Exp ''Saving CSV to an URL using POST is not implemented''))"
  using not_implemented [where reg = "emptyRegistry\<lparr>recentCSV := ''http://data.com:8080/test.csv''\<rparr>"
      and h = standIns and canWrite = anyPath and fs = "files smallWorld" and os = "[]"]
  by (simp add: emptyRegistry_def)

subsection \<open>The registry\<close>

lemma loadAndGet_fails:
  assumes "loadAndGet h w reg fileOrURL = (reg', Inl e)"
  shows "inMemoryCSV reg' = inMemoryCSV reg \<and>
         recentCSV reg' = (if fileOrURL = [] then recentCSV reg else fileOrURL)"
  using assms
  by (auto simp: loadAndGet_def Let_def split: if_splits sum.splits)

lemma loadAndGet_miss:
  assumes "inMemoryCSV reg (if fileOrURL = [] then recentCSV reg else fileOrURL) = None"
  shows "loadAndGet h w reg fileOrURL =
           (case loadCSV h w (if fileOrURL = [] then recentCSV reg else fileOrURL) of
              Inl e \<Rightarrow> (reg\<lparr>recentCSV := if fileOrURL = [] then recentCSV reg else fileOrURL\<rparr>, Inl e)
            | Inr csv \<Rightarrow>
                (reg\<lparr>recentCSV := if fileOrURL = [] then recentCSV reg else fileOrURL,
                     inMemoryCSV := (inMemoryCSV reg)
                        ((if fileOrURL = [] then recentCSV reg else fileOrURL) \<mapsto> csv)\<rparr>,
                 Inr (if fileOrURL = [] then recentCSV reg else fileOrURL)))"
  using assms by (simp add: loadAndGet_def Let_def split: sum.splits)

text \<open>
  C6, as the code has it. When \<^verbatim>\<open>loadAndGet\<close> leaves by an exception, the tables in
  memory are the same as before, and the most recently used identifier is the
  identifier of the call (the former one when the call gave the empty identifier): it
  is assigned before the load is attempted. A failing load of an identifier that is
  not in memory is passed on as it is. Loads that fail: a local file that cannot be
  opened, a local file that is malformed, a server whose status line does not contain
  \<open>200\<close>.
\<close>

theorem load_failure:
  "(loadAndGet h w reg fileOrURL = (reg', Inl e) \<longrightarrow>
      inMemoryCSV reg' = inMemoryCSV reg \<and>
      recentCSV reg' = (if fileOrURL = [] then recentCSV reg else fileOrURL))
   \<and>
   (fileOrURL \<noteq> [] \<and> inMemoryCSV reg fileOrURL = None \<and> loadCSV h w fileOrURL = Inl e \<longrightarrow>
      loadAndGet h w reg fileOrURL = (reg\<lparr>recentCSV := fileOrURL\<rparr>, Inl e))
   \<and>
   (\<not> prefix ''http://'' fileOrURL \<and> files w fileOrURL = None \<longrightarrow>
      loadCSV h w fileOrURL = Inl LoadFailed)
   \<and>
   (\<not> prefix ''http://'' fileOrURL \<and> files w fileOrURL = Some ls \<and> parseCSV h ls = None \<longrightarrow>
      loadCSV h w fileOrURL = Inl LoadFailed)
   \<and>
   (prefix ''http://'' fileOrURL \<and> breakDownURL h fileOrURL = (host, port, path) \<and>
    servers w host port = Some respond \<and> \<not> contains ''200'' (fst (getline (respond path))) \<longrightarrow>
      loadCSV h w fileOrURL =
        Inl (Exp (''Error ('' @ trim h (fst (getline (respond path))) @ '') getting '' @ path @
                  '' from '' @ host @ '' at port '' @ port)))"
proof -
  have 1: "loadAndGet h w reg fileOrURL = (reg', Inl e) \<longrightarrow>
      inMemoryCSV reg' = inMemoryCSV reg \<and>
      recentCSV reg' = (if fileOrURL = [] then recentCSV reg else fileOrURL)"
    using loadAndGet_fails by blast
  have 2: "fileOrURL \<noteq> [] \<and> inMemoryCSV reg fileOrURL = None \<and> loadCSV h w fileOrURL = Inl e \<longrightarrow>
      loadAndGet h w reg fileOrURL = (reg\<lparr>recentCSV := fileOrURL\<rparr>, Inl e)"
    using loadAndGet_miss [of reg fileOrURL h w] by simp
  have 3: "\<not> prefix ''http://'' fileOrURL \<and> files w fileOrURL = None \<longrightarrow>
      loadCSV h w fileOrURL = Inl LoadFailed"
    by (simp add: loadCSV_def load_def)
  have 4: "\<not> prefix ''http://'' fileOrURL \<and> files w fileOrURL = Some ls \<and> parseCSV h ls = None \<longrightarrow>
      loadCSV h w fileOrURL = Inl LoadFailed"
    by (simp add: loadCSV_def load_def)
  have 5: "prefix ''http://'' fileOrURL \<and> breakDownURL h fileOrURL = (host, port, path) \<and>
    servers w host port = Some respond \<and> \<not> contains ''200'' (fst (getline (respond path))) \<longrightarrow>
      loadCSV h w fileOrURL =
        Inl (Exp (''Error ('' @ trim h (fst (getline (respond path))) @ '') getting '' @ path @
                  '' from '' @ host @ '' at port '' @ port))"
    by (simp add: loadCSV_def loadFromURL_def split: prod.splits)
  show ?thesis by (intro conjI) (fact 1, fact 2, fact 3, fact 4, fact 5)
qed

text \<open>
  Against C6 as stated: after the failed load of \<open>missing.csv\<close> in a registry that had
  recorded nothing, the most recently used identifier is \<open>missing.csv\<close>.
\<close>

theorem load_failure_counterexample:
  "loadAndGet standIns smallWorld emptyRegistry ''missing.csv'' =
     (emptyRegistry\<lparr>recentCSV := ''missing.csv''\<rparr>, Inl LoadFailed) \<and>
   recentCSV (fst (loadAndGet standIns smallWorld emptyRegistry ''missing.csv'')) \<noteq>
     recentCSV emptyRegistry"
  by (simp add: loadAndGet_def loadCSV_def load_def emptyRegistry_def smallWorld_def Let_def)

theorem load_failure_witness:
  "loadAndGet standIns smallWorld emptyRegistry ''http://data.com:8080/test.csv'' =
     (emptyRegistry\<lparr>recentCSV := ''http://data.com:8080/test.csv''\<rparr>,
      Inl (Exp ''Error (HTTP/1.1 404 Not Found) getting /test.csv from data.com at port 8080'')) \<and>
   ''http://data.com:8080/test.csv'' \<noteq> [] \<and>
   inMemoryCSV emptyRegistry ''http://data.com:8080/test.csv'' = None \<and>
   prefix ''http://'' ''http://data.com:8080/test.csv'' \<and>
   \<not> contains ''200'' ''HTTP/1.1 404 Not Found'' \<and>
   \<not> prefix ''http://'' ''missing.csv'' \<and> files smallWorld ''missing.csv'' = None \<and>
   loadCSV standIns smallWorld ''missing.csv'' = Inl LoadFailed \<and>
   \<not> prefix ''http://'' ''empty.csv'' \<and>
   files (smallWorld\<lparr>files := [''empty.csv'' \<mapsto> []]\<rparr>) ''empty.csv'' = Some [] \<and>
   parseCSV standIns [] = None \<and>
   loadCSV standIns (smallWorld\<lparr>files := [''empty.csv'' \<mapsto> []]\<rparr>) ''empty.csv'' = Inl LoadFailed"
  using load_failure [of standIns smallWorld emptyRegistry "''http://data.com:8080/test.csv''"
      "emptyRegistry\<lparr>recentCSV := ''http://data.com:8080/test.csv''\<rparr>"
      "Exp ''Error (HTTP/1.1 404 Not Found) getting /test.csv from data.com at port 8080''"
      _ "''data.com''" "''8080''" "''/test.csv''" "\<lambda>path. [''HTTP/1.1 404 Not Found'', [], ''gone'']"]
    load_failure [of standIns smallWorld emptyRegistry "''missing.csv''"]
    load_failure [of standIns "smallWorld\<lparr>files := [''empty.csv'' \<mapsto> []]\<rparr>" emptyRegistry "''empty.csv''" _ _ "[]"]
  by (simp add: emptyRegistry_def smallWorld_def standIns_def)

lemma loadAndGet_substitutes:
  "loadAndGet h w reg [] = loadAndGet h w reg (recentCSV reg)"
  by (simp add: loadAndGet_def)

lemma loadAndGet_again:
  assumes "loadAndGet h w reg fileOrURL = (reg', Inr k)"
  shows "loadAndGet h w reg' [] = (reg', Inr k) \<and> loadAndGet h w reg' fileOrURL = (reg', Inr k) \<and>
         inMemoryCSV reg' k \<noteq> None"
  using assms
  by (auto simp: loadAndGet_def Let_def split: if_splits sum.splits)

text \<open>
  C7, as the code has it. \<^verbatim>\<open>loadAndGet\<close> with the empty identifier does what it does
  with the most recently used identifier. After a call that returned a table, a call
  with the empty identifier and a call with the same identifier both return that same
  entry of the tables in memory and leave the registry as it is. When no identifier is
  recorded, the empty string itself is the identifier: if no table is in memory under
  it, it is loaded as a local file, and the call ends as that load ends; there is no
  separate error for this case.
\<close>

theorem empty_identifier:
  "loadAndGet h w reg [] = loadAndGet h w reg (recentCSV reg)
   \<and>
   (loadAndGet h w reg fileOrURL = (reg', Inr k) \<longrightarrow>
      loadAndGet h w reg' [] = (reg', Inr k) \<and> loadAndGet h w reg' fileOrURL = (reg', Inr k) \<and>
      inMemoryCSV reg' k \<noteq> None)
   \<and>
   (recentCSV reg = [] \<and> inMemoryCSV reg [] = None \<longrightarrow>
      loadAndGet h w reg [] =
        (case load h (files w []) of
           Inl e \<Rightarrow> (reg, Inl e)
         | Inr csv \<Rightarrow> (reg\<lparr>inMemoryCSV := (inMemoryCSV reg)([] \<mapsto> csv)\<rparr>, Inr [])))"
proof -
  have 1: "loadAndGet h w reg [] = loadAndGet h w reg (recentCSV reg)"
    by (rule loadAndGet_substitutes)
  have 2: "loadAndGet h w reg fileOrURL = (reg', Inr k) \<longrightarrow>
      loadAndGet h w reg' [] = (reg', Inr k) \<and> loadAndGet h w reg' fileOrURL = (reg', Inr k) \<and>
      inMemoryCSV reg' k \<noteq> None"
    using loadAndGet_again by blast
  have 3: "recentCSV reg = [] \<and> inMemoryCSV reg [] = None \<longrightarrow>
      loadAndGet h w reg [] =
        (case load h (files w []) of
           Inl e \<Rightarrow> (reg, Inl e)
         | Inr csv \<Rightarrow> (reg\<lparr>inMemoryCSV := (inMemoryCSV reg)([] \<mapsto> csv)\<rparr>, Inr []))"
    using loadAndGet_miss [of reg "[]" h w] by (simp add: loadCSV_def split: sum.splits)
  show ?thesis by (intro conjI) (fact 1, fact 2, fact 3)
qed

theorem empty_identifier_witness:
  "loadAndGet standIns smallWorld emptyRegistry ''people.csv'' =
     (\<lparr>recentCSV = ''people.csv'', inMemoryCSV = [''people.csv'' \<mapsto> people]\<rparr>, Inr ''people.csv'') \<and>
   loadAndGet standIns smallWorld
       \<lparr>recentCSV = ''people.csv'', inMemoryCSV = [''people.csv'' \<mapsto> people]\<rparr> [] =
     (\<lparr>recentCSV = ''people.csv'', inMemoryCSV = [''people.csv'' \<mapsto> people]\<rparr>, Inr ''people.csv'') \<and>
   recentCSV emptyRegistry = [] \<and> inMemoryCSV emptyRegistry [] = None \<and>
   loadAndGet standIns smallWorld emptyRegistry [] = (emptyRegistry, Inl LoadFailed)"
  using empty_identifier [of standIns smallWorld emptyRegistry "''people.csv''"
      "\<lparr>recentCSV = ''people.csv'', inMemoryCSV = [''people.csv'' \<mapsto> people]\<rparr>" "''people.csv''"]
  by (simp add: loadAndGet_def loadCSV_def load_def emptyRegistry_def smallWorld_def standIns_def
      Let_def)

text \<open>
  Against C7 as stated: with nothing recorded and no file under the empty path, the
  empty identifier ends in the failure of the load, not in NoTableLoaded.
\<close>

theorem empty_identifier_counterexample:
  "loadAndGet standIns smallWorld emptyRegistry [] = (emptyRegistry, Inl LoadFailed) \<and>
   LoadFailed \<noteq> NoTableLoaded"
  by (simp add: loadAndGet_def loadCSV_def load_def emptyRegistry_def smallWorld_def Let_def)

subsection \<open>Waiting queries and notification\<close>

lemma holdsCsvMutex_waiting: "holdsCsvMutex (evs @ [LockCsv, WaitCsv]) held = False"
  by (induction evs held rule: holdsCsvMutex.induct) simp_all

lemma selectWait_quiet:
  assumes "\<forall>t \<in> set quiet. scannable matches colNames whereColIdx cond val t \<and>
             selection matches t whereColIdx cond val = []"
  shows "selectWait matches colNames whereColIdx cond val (quiet @ rest) True ([], 0) =
           (case selectWait matches colNames whereColIdx cond val rest True ([], 0) of
              (st, evs, s) \<Rightarrow> (st, wokenRounds (length quiet) @ evs, s))"
  using assms
proof (induction quiet)
  case Nil
  then show ?case by (simp add: wokenRounds_def)
next
  case (Cons t quiet)
  then have "selectRowProcess matches t colNames whereColIdx cond val ([], 0) = Inr ([], 0)"
    using selectRowProcess_ok [of colNames t matches whereColIdx cond val "[]" 0]
    by (simp add: scannable_def)
  with Cons show ?case
    by (simp add: wokenRounds_def wokenRound_def split: prod.splits)
qed

lemma selectWait_hit:
  assumes "scannable matches colNames whereColIdx cond val hit"
    and "selection matches hit whereColIdx cond val \<noteq> []"
  shows "selectWait matches colNames whereColIdx cond val (hit # later) True ([], 0) =
           ((concat (map (rowLine hit colNames) (selection matches hit whereColIdx cond val)),
             int (length (selection matches hit whereColIdx cond val))),
            wokenRound, Returned)"
  using assms selectRowProcess_ok [of colNames hit matches whereColIdx cond val "[]" 0]
  by (simp add: scannable_def selectWait_nowait wokenRound_def)

text \<open>
  The waiting select as a function of the wakeups that reach it: as long as every
  wakeup finds no satisfying row the call has not returned, has written nothing, is
  suspended in the wait and does not hold \<^verbatim>\<open>csvMutex\<close>; at the first wakeup whose scan
  finds a satisfying row it returns the rows that scan found. Whether a wakeup reaches
  the thread at all is not decided here.
\<close>

lemma selectQuery_wakeups:
  assumes "colNames \<noteq> []" and "cols = projection csv colNames"
    and "\<forall>t \<in> set (csv # quiet). scannable matches cols whereColIdx cond val t \<and>
           selection matches t whereColIdx cond val = []"
  shows "selectQuery matches csv True colNames whereColIdx cond val os quiet =
           (os, wokenRounds (length quiet) @ [LockCsv, WaitCsv], Blocked) \<and>
         \<not> holdsCsvMutex (wokenRounds (length quiet) @ [LockCsv, WaitCsv]) False \<and>
         (scannable matches cols whereColIdx cond val hit \<and>
          selection matches hit whereColIdx cond val \<noteq> [] \<longrightarrow>
          selectQuery matches csv True colNames whereColIdx cond val os (quiet @ hit # later) =
            (os @ selectOutput hit cols (selection matches hit whereColIdx cond val),
             wokenRounds (length quiet) @ wokenRound, Returned))"
proof -
  from assms(1) obtain first others where cn: "colNames = first # others"
    by (cases colNames) auto
  have p: "(if first = ''*'' then getColumnNames csv else first # others) = cols"
    by (simp add: assms(2) projection_def cn getColumnNames_def)
  have scan: "selectRowProcess matches csv cols whereColIdx cond val ([], 0) = Inr ([], 0)"
    using assms(3) selectRowProcess_ok [of cols csv matches whereColIdx cond val "[]" 0]
    by (simp add: scannable_def)
  have q: "\<forall>t \<in> set quiet. scannable matches cols whereColIdx cond val t \<and>
             selection matches t whereColIdx cond val = []"
    using assms(3) by simp
  have blocked: "selectWait matches cols whereColIdx cond val quiet True ([], 0) =
      (([], 0), wokenRounds (length quiet) @ [LockCsv, WaitCsv], Blocked)"
    using selectWait_quiet [OF q, of "[]"] by simp
  have 1: "selectQuery matches csv True colNames whereColIdx cond val os quiet =
           (os, wokenRounds (length quiet) @ [LockCsv, WaitCsv], Blocked)"
    unfolding selectQuery_def cn list.case Let_def p using scan blocked by simp
  have 2: "\<not> holdsCsvMutex (wokenRounds (length quiet) @ [LockCsv, WaitCsv]) False"
    by (simp add: holdsCsvMutex_waiting)
  have 3: "scannable matches cols whereColIdx cond val hit \<and>
          selection matches hit whereColIdx cond val \<noteq> [] \<longrightarrow>
          selectQuery matches csv True colNames whereColIdx cond val os (quiet @ hit # later) =
            (os @ selectOutput hit cols (selection matches hit whereColIdx cond val),
             wokenRounds (length quiet) @ wokenRound, Returned)"
  proof
    assume h: "scannable matches cols whereColIdx cond val hit \<and>
          selection matches hit whereColIdx cond val \<noteq> []"
    have "selectWait matches cols whereColIdx cond val (quiet @ hit # later) True ([], 0) =
        ((concat (map (rowLine hit cols) (selection matches hit whereColIdx cond val)),
             int (length (selection matches hit whereColIdx cond val))),
         wokenRounds (length quiet) @ wokenRound, Returned)"
      using selectWait_quiet [OF q, of "hit # later"] selectWait_hit [of matches cols whereColIdx cond val hit later] h
      by simp
    with h show "selectQuery matches csv True colNames whereColIdx cond val os (quiet @ hit # later) =
            (os @ selectOutput hit cols (selection matches hit whereColIdx cond val),
             wokenRounds (length quiet) @ wokenRound, Returned)"
      unfolding selectQuery_def cn list.case Let_def p using scan by (simp add: selectOutput_def)
  qed
  show ?thesis by (intro conjI) (fact 1, fact 2, fact 3)
qed

text \<open>The steps of the selecting thread, taken without any other thread in between,
  end where \<^verbatim>\<open>selectQuery\<close> ends when no wakeup reaches it.\<close>

lemma selectStep_alone:
  assumes "selectQuery matches csv mustWait colNames whereColIdx cond val os [] = (os', evs, s)"
  shows "\<exists>n rc. interleave matches colNames whereColIdx cond val (replicate n Select)
                  \<lparr>shared = csv, reader = selectEntry mustWait os\<rparr> = Some rc \<and>
                shared rc = csv \<and> selOut (reader rc) = os' \<and>
                point (reader rc) = (if s = Blocked then InWait else AtExit s)"
proof (cases colNames)
  case Nil
  with assms have "os' = os" "s = Undefined" by (simp_all add: selectQuery_def)
  with Nil show ?thesis
    by (intro exI [of _ 1]) (simp add: selectStep_def selectEntry_def)
next
  case (Cons first others)
  let ?cols = "if first = ''*'' then getColumnNames csv else first # others"
  show ?thesis
  proof (cases "selectRowProcess matches csv ?cols whereColIdx cond val ([], 0)")
    case (Inl e)
    with assms Cons have "os' = os" "s = Threw e" by (simp_all add: selectQuery_def Let_def)
    with Cons Inl show ?thesis
      by (intro exI [of _ 1]) (simp add: selectStep_def selectEntry_def Let_def)
  next
    case (Inr st)
    obtain rowText rowCount where st: "st = (rowText, rowCount)" by (cases st)
    show ?thesis
    proof (cases "rowCount = 0 \<and> mustWait")
      case True
      with assms Cons Inr st have "os' = os" "s = Blocked"
        by (simp_all add: selectQuery_def Let_def)
      with Cons Inr st True show ?thesis
        by (intro exI [of _ 2]) (simp add: selectStep_def selectEntry_def numeral_2_eq_2 Let_def)
    next
      case False
      with assms Cons Inr st have "s = Returned"
        "os' = os @ (if rowCount \<noteq> 0 then showStrVec ?cols @ endl else [])
                  @ rowText @ to_string rowCount @ '' row(s) selected.'' @ endl"
        by (auto simp: selectQuery_def Let_def)
      with Cons Inr st False show ?thesis
        by (intro exI [of _ 2]) (auto simp: selectStep_def selectEntry_def numeral_2_eq_2 Let_def)
    qed
  qed
qed

text \<open>
  C3. A select that waits is to stay pending until a row satisfies its where-clause and
  then to return the satisfying rows. The code does not keep this. It scans the table
  before it takes \<^verbatim>\<open>csvMutex\<close>, waits without a predicate, and the updating thread
  calls \<^verbatim>\<open>notify_all\<close> without holding \<^verbatim>\<open>csvMutex\<close>. When the update of another thread
  runs after the scan of the select and before its wait, the notification finds nobody
  waiting: the select then enters the wait and cannot move, although the row of Alice
  satisfies the where-clause. When the same update runs after the select has entered
  the wait, the select is woken and returns that row.
\<close>

theorem lost_wakeup:
  "interleave equalityOnly [''Name''] 1 ''='' ''31''
       [Select, Update [''Age''] [''31''] 0 ''='' ''Alice'', Select]
       \<lparr>shared = people, reader = selectEntry True []\<rparr> =
     Some \<lparr>shared = people\<lparr>rowData := [[''Alice'', ''31''], [''Bob'', ''25'']]\<rparr>,
           reader = \<lparr>point = InWait, selCols = [''Name''], selText = [], selCount = 0,
                     selWait = True, selOut = []\<rparr>\<rparr> \<and>
   selectStep equalityOnly [''Name''] 1 ''='' ''31''
       \<lparr>shared = people\<lparr>rowData := [[''Alice'', ''31''], [''Bob'', ''25'']]\<rparr>,
        reader = \<lparr>point = InWait, selCols = [''Name''], selText = [], selCount = 0,
                  selWait = True, selOut = []\<rparr>\<rparr> = None \<and>
   selection equalityOnly (people\<lparr>rowData := [[''Alice'', ''31''], [''Bob'', ''25'']]\<rparr>)
       1 ''='' ''31'' = [[''Alice'', ''31'']] \<and>
   interleave equalityOnly [''Name''] 1 ''='' ''31''
       [Select, Select, Update [''Age''] [''31''] 0 ''='' ''Alice'', Select, Select]
       \<lparr>shared = people, reader = selectEntry True []\<rparr> =
     Some \<lparr>shared = people\<lparr>rowData := [[''Alice'', ''31''], [''Bob'', ''25'']]\<rparr>,
           reader = \<lparr>point = AtExit Returned, selCols = [''Name''], selText = ''Alice'' @ endl,
                     selCount = 1, selWait = False,
                     selOut = ''Name'' @ endl @ ''Alice'' @ endl @ ''1 row(s) selected.'' @ endl\<rparr>\<rparr>"
  by (simp add: selectStep_def updateStep_def selectEntry_def selectRowProcess_def
      updateQuery_def updateRowProcess_def isMatch_def at_def getColumnIndex_def
      selection_def satisfies_def equalityOnly_def people_def to_string_small)

lemma updated_none:
  "selection matches csv whereColIdx cond val = [] \<Longrightarrow>
   updated matches csv colNames vals whereColIdx cond val = csv"
proof -
  assume "selection matches csv whereColIdx cond val = []"
  then have "\<forall>row \<in> set (rowData csv). \<not> satisfies matches whereColIdx cond val row"
    by (simp add: selection_def filter_empty_conv)
  then have "map (\<lambda>row. if satisfies matches whereColIdx cond val row
                         then assigned csv colNames vals row else row) (rowData csv) = rowData csv"
    by (simp add: map_idI)
  then show ?thesis by (simp add: updated_def)
qed

lemma updateWait_quiet:
  assumes "\<forall>t \<in> set quiet. updatable matches colNames vals whereColIdx cond val t \<and>
             selection matches t whereColIdx cond val = []"
  shows "updateWait matches colNames vals whereColIdx cond val (quiet @ rest) True (csv, 0) =
           (case updateWait matches colNames vals whereColIdx cond val rest True (last (csv # quiet), 0) of
              (st, evs, s) \<Rightarrow> (st, wokenRounds (length quiet) @ evs, s))"
  using assms
proof (induction quiet arbitrary: csv)
  case Nil
  then show ?case by (simp add: wokenRounds_def)
next
  case (Cons t quiet)
  then have "updateRowProcess matches t colNames vals whereColIdx cond val 0 = ((t, 0), None)"
    using updateRowProcess_ok [of matches colNames vals whereColIdx cond val t 0]
    by (simp add: updated_none)
  with Cons.IH [of t] Cons.prems show ?case
    by (simp add: wokenRounds_def wokenRound_def split: prod.splits)
qed

lemma updateWait_hit:
  assumes "updatable matches colNames vals whereColIdx cond val hit"
    and "selection matches hit whereColIdx cond val \<noteq> []"
  shows "updateWait matches colNames vals whereColIdx cond val (hit # later) True (csv, 0) =
           ((updated matches hit colNames vals whereColIdx cond val,
             int (length (selection matches hit whereColIdx cond val))),
            wokenRound, Returned)"
  using assms updateRowProcess_ok [of matches colNames vals whereColIdx cond val hit 0]
  by (simp add: updateWait_done wokenRound_def)

lemma updateQuery_runs:
  assumes "updatable matches colNames vals whereColIdx cond val csv"
  shows "(selection matches csv whereColIdx cond val \<noteq> [] \<longrightarrow>
            fst (snd (snd (updateQuery matches csv mustWait colNames vals whereColIdx cond val os wakeups)))
              = [NotifyAll])
         \<and>
         (selection matches csv whereColIdx cond val = [] \<longrightarrow>
            updateQuery matches csv False colNames vals whereColIdx cond val os wakeups =
              (csv, os @ ''0 row(s) updated.'' @ endl, [], Returned))
         \<and>
         (selection matches csv whereColIdx cond val = [] \<and>
          (\<forall>t \<in> set quiet. updatable matches colNames vals whereColIdx cond val t \<and>
             selection matches t whereColIdx cond val = []) \<longrightarrow>
            updateQuery matches csv True colNames vals whereColIdx cond val os quiet =
              (last (csv # quiet), os, wokenRounds (length quiet) @ [LockCsv, WaitCsv], Blocked)
            \<and>
            (updatable matches colNames vals whereColIdx cond val hit \<and>
             selection matches hit whereColIdx cond val \<noteq> [] \<longrightarrow>
               updateQuery matches csv True colNames vals whereColIdx cond val os (quiet @ hit # later) =
                 (updated matches hit colNames vals whereColIdx cond val,
                  os @ to_string (int (length (selection matches hit whereColIdx cond val)))
                     @ '' row(s) updated.'' @ endl,
                  wokenRounds (length quiet) @ wokenRound @ [NotifyAll], Returned)))"
proof -
  let ?sel = "selection matches csv whereColIdx cond val"
  note first = updateRowProcess_ok [OF assms, of 0]
  have 1: "?sel \<noteq> [] \<longrightarrow>
      fst (snd (snd (updateQuery matches csv mustWait colNames vals whereColIdx cond val os wakeups)))
        = [NotifyAll]"
    using first by (simp add: updateQuery_def updateWait_done)
  have 2: "?sel = [] \<longrightarrow>
      updateQuery matches csv False colNames vals whereColIdx cond val os wakeups =
        (csv, os @ ''0 row(s) updated.'' @ endl, [], Returned)"
    using first by (simp add: updateQuery_def updateWait_done updated_none to_string_small)
  have 3: "?sel = [] \<and>
          (\<forall>t \<in> set quiet. updatable matches colNames vals whereColIdx cond val t \<and>
             selection matches t whereColIdx cond val = []) \<longrightarrow>
            updateQuery matches csv True colNames vals whereColIdx cond val os quiet =
              (last (csv # quiet), os, wokenRounds (length quiet) @ [LockCsv, WaitCsv], Blocked)
            \<and>
            (updatable matches colNames vals whereColIdx cond val hit \<and>
             selection matches hit whereColIdx cond val \<noteq> [] \<longrightarrow>
               updateQuery matches csv True colNames vals whereColIdx cond val os (quiet @ hit # later) =
                 (updated matches hit colNames vals whereColIdx cond val,
                  os @ to_string (int (length (selection matches hit whereColIdx cond val)))
                     @ '' row(s) updated.'' @ endl,
                  wokenRounds (length quiet) @ wokenRound @ [NotifyAll], Returned))"
  proof (intro impI)
    assume a: "?sel = [] \<and>
          (\<forall>t \<in> set quiet. updatable matches colNames vals whereColIdx cond val t \<and>
             selection matches t whereColIdx cond val = [])"
    then have q: "\<forall>t \<in> set quiet. updatable matches colNames vals whereColIdx cond val t \<and>
             selection matches t whereColIdx cond val = []" by simp
    from a first have f0: "updateRowProcess matches csv colNames vals whereColIdx cond val 0 =
        ((csv, 0), None)" by (simp add: updated_none)
    have b: "updateWait matches colNames vals whereColIdx cond val quiet True (csv, 0) =
        ((last (csv # quiet), 0), wokenRounds (length quiet) @ [LockCsv, WaitCsv], Blocked)"
      using updateWait_quiet [OF q, of "[]" csv] by simp
    have A: "updateQuery matches csv True colNames vals whereColIdx cond val os quiet =
              (last (csv # quiet), os, wokenRounds (length quiet) @ [LockCsv, WaitCsv], Blocked)"
      using f0 b by (simp add: updateQuery_def)
    have B: "updatable matches colNames vals whereColIdx cond val hit \<and>
             selection matches hit whereColIdx cond val \<noteq> [] \<longrightarrow>
               updateQuery matches csv True colNames vals whereColIdx cond val os (quiet @ hit # later) =
                 (updated matches hit colNames vals whereColIdx cond val,
                  os @ to_string (int (length (selection matches hit whereColIdx cond val)))
                     @ '' row(s) updated.'' @ endl,
                  wokenRounds (length quiet) @ wokenRound @ [NotifyAll], Returned)"
    proof
      assume h: "updatable matches colNames vals whereColIdx cond val hit \<and>
             selection matches hit whereColIdx cond val \<noteq> []"
      have "updateWait matches colNames vals whereColIdx cond val (quiet @ hit # later) True (csv, 0) =
          ((updated matches hit colNames vals whereColIdx cond val,
             int (length (selection matches hit whereColIdx cond val))),
            wokenRounds (length quiet) @ wokenRound, Returned)"
        using updateWait_quiet [OF q, of "hit # later" csv]
          updateWait_hit [of matches colNames vals whereColIdx cond val hit later "last (csv # quiet)"] h
        by simp
      with h f0 show "updateQuery matches csv True colNames vals whereColIdx cond val os (quiet @ hit # later) =
                 (updated matches hit colNames vals whereColIdx cond val,
                  os @ to_string (int (length (selection matches hit whereColIdx cond val)))
                     @ '' row(s) updated.'' @ endl,
                  wokenRounds (length quiet) @ wokenRound @ [NotifyAll], Returned)"
        by (simp add: updateQuery_def)
    qed
    from A B show "updateQuery matches csv True colNames vals whereColIdx cond val os quiet =
              (last (csv # quiet), os, wokenRounds (length quiet) @ [LockCsv, WaitCsv], Blocked)
            \<and>
            (updatable matches colNames vals whereColIdx cond val hit \<and>
             selection matches hit whereColIdx cond val \<noteq> [] \<longrightarrow>
               updateQuery matches csv True colNames vals whereColIdx cond val os (quiet @ hit # later) =
                 (updated matches hit colNames vals whereColIdx cond val,
                  os @ to_string (int (length (selection matches hit whereColIdx cond val)))
                     @ '' row(s) updated.'' @ endl,
                  wokenRounds (length quiet) @ wokenRound @ [NotifyAll], Returned))"
      by (rule conjI)
  qed
  show ?thesis by (intro conjI) (fact 1, fact 2, fact 3)
qed

lemma updateWait_silent:
  "NotifyAll \<notin> set (fst (snd (updateWait matches colNames vals whereColIdx cond val wakeups
                                  mustWait st)))"
proof (induction wakeups arbitrary: mustWait st)
  case Nil
  then show ?case by (cases st) simp
next
  case (Cons woken later)
  obtain csv rowCount where st: "st = (csv, rowCount)" by (cases st)
  show ?case
  proof (cases "rowCount = 0 \<and> mustWait")
    case False
    then show ?thesis by (auto simp: st)
  next
    case True
    obtain csv' rowCount' r where u:
      "updateRowProcess matches woken colNames vals whereColIdx cond val rowCount =
         ((csv', rowCount'), r)"
      by (metis surj_pair)
    show ?thesis
    proof (cases r)
      case (Some e)
      with True u show ?thesis by (simp add: st)
    next
      case None
      obtain st2 evs s where w:
        "updateWait matches colNames vals whereColIdx cond val later
           (if rowCount' \<noteq> 0 then False else mustWait) (csv', rowCount') = (st2, evs, s)"
        by (metis surj_pair)
      from Cons.IH [of "if rowCount' \<noteq> 0 then False else mustWait" "(csv', rowCount')"] w
      have "NotifyAll \<notin> set evs" by simp
      with True u None w show ?thesis by (cases "rowCount' = 0") (simp_all add: st)
    qed
  qed
qed

lemma updateQuery_silent:
  assumes "snd (snd (snd (updateQuery matches csv mustWait colNames vals whereColIdx cond val
                            os wakeups))) \<noteq> Returned"
  shows "NotifyAll \<notin> set (fst (snd (snd (updateQuery matches csv mustWait colNames vals
                                            whereColIdx cond val os wakeups))))"
proof -
  obtain csv1 rowCount1 r where u:
    "updateRowProcess matches csv colNames vals whereColIdx cond val 0 = ((csv1, rowCount1), r)"
    by (metis surj_pair)
  show ?thesis
  proof (cases r)
    case (Some e)
    with u show ?thesis by (simp add: updateQuery_def)
  next
    case None
    obtain csv2 rowCount evs s where w:
      "updateWait matches colNames vals whereColIdx cond val wakeups mustWait (csv1, rowCount1) =
         ((csv2, rowCount), evs, s)"
      by (metis surj_pair)
    have "NotifyAll \<notin> set evs"
      using updateWait_silent [of matches colNames vals whereColIdx cond val wakeups mustWait
          "(csv1, rowCount1)"] w by simp
    with assms u None w show ?thesis by (simp add: updateQuery_def split: if_splits)
  qed
qed

text \<open>
  C4. \<^verbatim>\<open>updateQuery\<close> calls \<^verbatim>\<open>notify_all\<close> on the condition variable of the table once,
  as its last synchronisation event, when it has updated at least one row, and not at
  all otherwise: with a satisfying row in the table at the call it notifies; without
  one and without waiting it returns \<open>0 row(s) updated.\<close> and notifies nobody; without
  one and waiting it stays blocked, without any notification, as long as the wakeups
  find no satisfying row, and at the first wakeup that finds one it updates that
  table, notifies all waiters and returns.
\<close>

theorem update_notifies:
  "(updatable matches colNames vals whereColIdx cond val csv \<longrightarrow>
      (selection matches csv whereColIdx cond val \<noteq> [] \<longrightarrow>
         fst (snd (snd (updateQuery matches csv mustWait colNames vals whereColIdx cond val
                          os wakeups))) = [NotifyAll])
      \<and>
      (selection matches csv whereColIdx cond val = [] \<longrightarrow>
         updateQuery matches csv False colNames vals whereColIdx cond val os wakeups =
           (csv, os @ ''0 row(s) updated.'' @ endl, [], Returned))
      \<and>
      (selection matches csv whereColIdx cond val = [] \<and>
       (\<forall>t \<in> set quiet. updatable matches colNames vals whereColIdx cond val t \<and>
          selection matches t whereColIdx cond val = []) \<longrightarrow>
         updateQuery matches csv True colNames vals whereColIdx cond val os quiet =
           (last (csv # quiet), os, wokenRounds (length quiet) @ [LockCsv, WaitCsv], Blocked)
         \<and>
         (updatable matches colNames vals whereColIdx cond val hit \<and>
          selection matches hit whereColIdx cond val \<noteq> [] \<longrightarrow>
            updateQuery matches csv True colNames vals whereColIdx cond val os
                (quiet @ hit # later) =
              (updated matches hit colNames vals whereColIdx cond val,
               os @ to_string (int (length (selection matches hit whereColIdx cond val)))
                  @ '' row(s) updated.'' @ endl,
               wokenRounds (length quiet) @ wokenRound @ [NotifyAll], Returned))))
   \<and>
   (snd (snd (snd (updateQuery matches csv mustWait colNames vals whereColIdx cond val
                     os wakeups))) \<noteq> Returned \<longrightarrow>
      NotifyAll \<notin> set (fst (snd (snd (updateQuery matches csv mustWait colNames vals
                                         whereColIdx cond val os wakeups)))))"
  using updateQuery_runs [of matches colNames vals whereColIdx cond val csv mustWait os wakeups
      quiet hit later]
    updateQuery_silent [of matches csv mustWait colNames vals whereColIdx cond val os wakeups]
  by blast

theorem update_notifies_witness:
  "updatable equalityOnly [''Age''] [''31''] 0 ''='' ''Alice'' people \<and>
   selection equalityOnly people 0 ''='' ''Alice'' \<noteq> [] \<and>
   fst (snd (snd (updateQuery equalityOnly people True [''Age''] [''31''] 0 ''='' ''Alice'' [] [])))
     = [NotifyAll] \<and>
   updatable equalityOnly [''Age''] [''41''] 0 ''='' ''Carol'' people \<and>
   selection equalityOnly people 0 ''='' ''Carol'' = [] \<and>
   updateQuery equalityOnly people False [''Age''] [''41''] 0 ''='' ''Carol'' [] [] =
     (people, ''0 row(s) updated.'' @ endl, [], Returned) \<and>
   updateQuery equalityOnly people True [''Age''] [''41''] 0 ''='' ''Carol'' [] [people] =
     (people, [], [LockCsv, WaitCsv, WakeCsv, UnlockCsv, LockCsv, WaitCsv], Blocked) \<and>
   updatable equalityOnly [''Age''] [''41''] 0 ''='' ''Carol''
     (people\<lparr>rowData := [[''Carol'', ''40'']]\<rparr>) \<and>
   selection equalityOnly (people\<lparr>rowData := [[''Carol'', ''40'']]\<rparr>) 0 ''='' ''Carol'' \<noteq> [] \<and>
   updateQuery equalityOnly people True [''Age''] [''41''] 0 ''='' ''Carol'' []
       [people, people\<lparr>rowData := [[''Carol'', ''40'']]\<rparr>, people] =
     (people\<lparr>rowData := [[''Carol'', ''41'']]\<rparr>, ''1 row(s) updated.'' @ endl,
      [LockCsv, WaitCsv, WakeCsv, UnlockCsv, LockCsv, WaitCsv, WakeCsv, UnlockCsv, NotifyAll],
      Returned) \<and>
   updateQuery equalityOnly people False [''Bad''] [''x''] (-1) [] [] [] [] =
     (people, [], [], Threw InvalidColumn)"
  using update_notifies [where matches = equalityOnly and colNames = "[''Age'']"
      and vals = "[''31'']" and whereColIdx = 0 and cond = "''=''" and val = "''Alice''"
      and csv = people and mustWait = True and os = "[]" and wakeups = "[]" and quiet = "[]"]
    update_notifies [where matches = equalityOnly and colNames = "[''Age'']"
      and vals = "[''41'']" and whereColIdx = 0 and cond = "''=''" and val = "''Carol''"
      and csv = people and mustWait = True and os = "[]" and wakeups = "[]"
      and quiet = "[people]" and hit = "people\<lparr>rowData := [[''Carol'', ''40'']]\<rparr>"
      and later = "[people]"]
    update_notifies [where matches = equalityOnly and colNames = "[''Bad'']"
      and vals = "[''x'']" and whereColIdx = "-1" and cond = "[]" and val = "[]"
      and csv = people and mustWait = False and os = "[]" and wakeups = "[]"]
  by (simp add: updatable_def wellFormed_def validWhere_def selection_def satisfies_def
      isMatch_def at_def updated_def assigned_def to_string_small equalityOnly_def people_def
      wokenRounds_def wokenRound_def updateQuery_def updateRowProcess_def getColumnIndex_def)

subsection \<open>The admission gate\<close>

lemma clientThread_exit:
  "snd (clientThread h path os n) = (n - 1, [NotifyOne])"
  by (simp add: clientThread_def Let_def)

lemma exec_invariant:
  assumes "gateInvariant maxThr n0 s" and "exec h maxThr a s = Some s'"
  shows "gateInvariant maxThr n0 s'"
proof (cases a)
  case Admit
  with assms show ?thesis by (auto simp: gateInvariant_def split: if_splits)
next
  case Count
  with assms show ?thesis by (auto simp: gateInvariant_def split: if_splits)
next
  case (Finish path)
  obtain response where r: "clientThread h path [] (numThreads s) = (response, numThreads s - 1, [NotifyOne])"
    using clientThread_exit [of h path "[]" "numThreads s"]
    by (cases "clientThread h path [] (numThreads s)") auto
  with Finish assms show ?thesis by (auto simp: gateInvariant_def split: if_splits)
qed

lemma run_invariant:
  assumes "gateInvariant maxThr n0 s" and "run h maxThr sched s = Some s'"
  shows "gateInvariant maxThr n0 s'"
  using assms
proof (induction sched arbitrary: s)
  case Nil
  then show ?case by simp
next
  case (Cons a sched)
  then obtain s1 where s1: "exec h maxThr a s = Some s1" "run h maxThr sched s1 = Some s'"
    by (auto split: option.splits)
  from exec_invariant [OF Cons.prems(1) s1(1)] Cons.IH s1(2) show ?case by blast
qed

lemma init_invariant: "gateInvariant maxThr n0 (initServer n0)"
  by (simp add: gateInvariant_def initServer_def)

text \<open>
  The dispatcher starts a worker only when it finds the counter at or below \<open>maxThr\<close>,
  and counts the worker afterwards. With the counter at \<open>n0\<close> when the server starts
  (its declaration is in the absent \<^verbatim>\<open>SQLAir.h\<close>), at no time are more than
  \<open>maxThr + 1 - n0\<close> workers running. Every worker ends by decrementing the counter and
  signalling one waiter on \<^verbatim>\<open>thrCond\<close>, whether its query was processed or threw. The
  steps of the threads on the counter are taken as atomic.
\<close>

lemma gate_bound:
  "(run h maxThr sched (initServer n0) = Some s \<longrightarrow> int (workers s) \<le> max 0 (maxThr + 1 - n0))
   \<and> (exec h maxThr Admit s1 = Some s2 \<longrightarrow> numThreads s1 \<le> maxThr)
   \<and> snd (clientThread h path os n) = (n - 1, [NotifyOne])
   \<and> (exec h maxThr (Finish path) s1 = Some s2 \<longrightarrow>
        numThreads s2 = numThreads s1 - 1 \<and> signals s2 = signals s1 @ [NotifyOne])"
proof -
  have 1: "run h maxThr sched (initServer n0) = Some s \<longrightarrow>
      int (workers s) \<le> max 0 (maxThr + 1 - n0)"
    using run_invariant [OF init_invariant, of h maxThr sched n0 s]
    by (simp add: gateInvariant_def)
  have 2: "exec h maxThr Admit s1 = Some s2 \<longrightarrow> numThreads s1 \<le> maxThr"
    by (simp split: if_splits)
  have 3: "snd (clientThread h path os n) = (n - 1, [NotifyOne])"
    by (rule clientThread_exit)
  have 4: "exec h maxThr (Finish path) s1 = Some s2 \<longrightarrow>
        numThreads s2 = numThreads s1 - 1 \<and> signals s2 = signals s1 @ [NotifyOne]"
    using clientThread_exit [of h path "[]" "numThreads s1"]
    by (cases "clientThread h path [] (numThreads s1)") (auto split: if_splits)
  show ?thesis by (intro conjI) (fact 1, fact 2, fact 3, fact 4)
qed

end
